theory Spec2Isabelle
  imports Main
begin

section \<open>Data model\<close>

text \<open>
  The rows of the two tables that \<open>AuthService\<close> reads and writes through the Prisma
  client. Dates are milliseconds since the epoch (what \<open>Date.getTime\<close> returns), as
  unbounded integers.
\<close>

record user =
  u_id :: string
  u_email :: string
  u_name :: string
  u_password :: string

record resetPasswordToken =
  t_id :: string
  t_userId :: string
  t_active :: bool
  t_expiresIn :: int
  t_createdAt :: int

text \<open>The request bodies (\<open>AuthenticateDto\<close>, \<open>ResetPasswordDto\<close>, \<open>CreateUserDto\<close>).\<close>

record authenticateDto =
  a_email :: string
  a_password :: string

record resetPasswordDto =
  rp_token :: string
  rp_password :: string
  rp_passwordConfirmation :: string

record createUserDto =
  c_email :: string
  c_name :: string
  c_password :: string
  c_passwordConfirmation :: string

text \<open>
  Every \<open>throw\<close> of the service is a \<open>BadRequestException\<close> with a message. The Prisma
  client raises a \<open>PrismaClientKnownRequestError\<close> with an error code when an update
  finds no row (P2025) or an insert repeats a primary key (P2002). \<open>Date.toISOString\<close>
  raises a \<open>RangeError\<close> on an invalid date, and \<open>jsonwebtoken\<close> raises a plain \<open>Error\<close>.
\<close>

datatype error =
    BadRequestException string
  | PrismaClientKnownRequestError string
  | RangeError string
  | Error string

section \<open>Collaborators\<close>

subsection \<open>The hash provider\<close>

text \<open>
  \<open>BCryptHashProvider\<close> is injected; its two methods are fields of a record, so that a
  call of the service may be given any hash provider.
\<close>

record hash_provider =
  generateHash :: "string \<Rightarrow> string"
  compareHash :: "string \<Rightarrow> string \<Rightarrow> bool"

subsection \<open>Signed tokens\<close>

text \<open>
  \<open>authConfig.jwt\<close> (\<open>@src/config/auth.config\<close>, not among the sources) holds the signing
  secret and the expiry; it is a parameter of the model. The secret may be undefined
  (\<open>None\<close>), as a value read from the environment is; the expiry is a timespan string
  such as \<open>1d\<close>.
\<close>

record jwt_config =
  jwt_secret :: "string option"
  jwt_expiresIn :: string

record sign_options =
  subject :: string
  expiresIn :: string

text \<open>
  A token that \<open>sign({}, secret, {subject, expiresIn})\<close> returns is kept symbolic: the
  (empty) payload is left out, and the token records the secret it was signed with, its
  subject claim and the expiry option it was issued with.
\<close>

datatype jwt = Jwt (signed_with: string) (sub_claim: string) (exp_option: string)

text \<open>
  \<open>sign\<close> of \<open>jsonwebtoken\<close> throws when the secret is undefined or empty, and when the
  expiry is empty or is not a timespan that the package \<open>ms\<close> can read. The reader of
  timespans is the argument \<open>ms\<close>: it gives the milliseconds, or nothing.
\<close>

definition sign :: "(string \<Rightarrow> int option) \<Rightarrow> string option \<Rightarrow> sign_options \<Rightarrow> error + jwt" where
  "sign ms secretOrPrivateKey opts =
     (case secretOrPrivateKey of
        None \<Rightarrow> Inl (Error ''secretOrPrivateKey must have a value'')
      | Some secret \<Rightarrow>
          if secret = [] then Inl (Error ''secretOrPrivateKey must have a value'')
          else if expiresIn opts = []
          then Inl (Error
            ''\"expiresIn\" should be a number of seconds or string representing a timespan'')
          else
            (case ms (expiresIn opts) of
               None \<Rightarrow> Inl (Error
                 ''\"expiresIn\" should be a number of seconds or string representing a timespan eg: \"1d\", \"20h\", 60'')
             | Some _ \<Rightarrow> Inr (Jwt secret (subject opts) (expiresIn opts))))"

subsection \<open>The user returned to the caller\<close>

record userModel =
  um_id :: string
  um_email :: string
  um_name :: string

text \<open>
  Modelled from the spec: the class \<open>UserModel\<close> (\<open>../users/models/user.model\<close>) that
  \<open>plainToClass\<close> instantiates is not among the sources. The spec says that the
  service "returns the sanitized user (password field stripped)", and the end-to-end test
  of sign-up expects the response not to have the property \<open>user.password\<close>.
\<close>

definition plainToClass_UserModel :: "user \<Rightarrow> userModel" where
  "plainToClass_UserModel usr =
     \<lparr>um_id = u_id usr, um_email = u_email usr, um_name = u_name usr\<rparr>"

record authResponse =
  ar_user :: userModel
  ar_token :: jwt

subsection \<open>The database behind the Prisma client\<close>

text \<open>
  The state is the two tables, in insertion order, and the list of the queries sent to
  the Prisma client so far, which makes reads observable.
\<close>

datatype user_where = WhereEmail string | WhereId string

datatype query =
    User_findUnique user_where
  | User_create string
  | User_update string string
  | User_deleteMany
  | Token_findUnique string
  | Token_findFirst string
  | Token_create string
  | Token_update string bool

record world =
  users :: "user list"
  tokens :: "resetPasswordToken list"
  queries :: "query list"

definition logged :: "query \<Rightarrow> world \<Rightarrow> world" where
  "logged q w = w\<lparr>queries := queries w @ [q]\<rparr>"

fun user_matches :: "user_where \<Rightarrow> user \<Rightarrow> bool" where
  "user_matches (WhereEmail e) usr = (u_email usr = e)"
| "user_matches (WhereId i) usr = (u_id usr = i)"

text \<open>\<open>prisma.user.findUnique({ where })\<close>\<close>

definition prisma_user_findUnique :: "user_where \<Rightarrow> world \<Rightarrow> user option \<times> world" where
  "prisma_user_findUnique wh w =
     (find (user_matches wh) (users w), logged (User_findUnique wh) w)"

text \<open>\<open>prisma.user.update({ where: { id }, data: { password } })\<close>\<close>

definition prisma_user_update :: "string \<Rightarrow> string \<Rightarrow> world \<Rightarrow> (error + user) \<times> world" where
  "prisma_user_update i pw w =
     (case find (\<lambda>usr. u_id usr = i) (users w) of
        None \<Rightarrow> (Inl (PrismaClientKnownRequestError ''P2025''), logged (User_update i pw) w)
      | Some usr \<Rightarrow>
          (Inr (usr\<lparr>u_password := pw\<rparr>),
           logged (User_update i pw)
             (w\<lparr>users := map (\<lambda>r. if u_id r = i then r\<lparr>u_password := pw\<rparr> else r) (users w)\<rparr>)))"

text \<open>\<open>prisma.user.deleteMany()\<close>, which the end-to-end test calls: it returns the count.\<close>

definition prisma_user_deleteMany :: "world \<Rightarrow> nat \<times> world" where
  "prisma_user_deleteMany w = (length (users w), logged User_deleteMany (w\<lparr>users := []\<rparr>))"

text \<open>\<open>prisma.resetPasswordToken.findUnique({ where: { id } })\<close>\<close>

definition prisma_resetPasswordToken_findUnique ::
  "string \<Rightarrow> world \<Rightarrow> resetPasswordToken option \<times> world" where
  "prisma_resetPasswordToken_findUnique i w =
     (find (\<lambda>t. t_id t = i) (tokens w), logged (Token_findUnique i) w)"

text \<open>
  What the database decides in a call: which of the rows with the same \<open>createdAt\<close> comes
  first in a sorted result (the order of such rows is not determined by the query), and,
  when a row is inserted, the generated primary key and the creation time.
\<close>

record database =
  pick :: nat
  gen_id :: string
  gen_createdAt :: int

text \<open>The rows of a list with the greatest \<open>createdAt\<close>.\<close>

definition latestRows :: "resetPasswordToken list \<Rightarrow> resetPasswordToken list" where
  "latestRows ts = filter (\<lambda>t. list_all (\<lambda>t'. t_createdAt t' \<le> t_createdAt t) ts) ts"

text \<open>
  The first row of a list in descending order of \<open>createdAt\<close>: one of the rows with the
  greatest \<open>createdAt\<close>, the one that the database picks.
\<close>

definition firstByCreatedAtDesc :: "nat \<Rightarrow> resetPasswordToken list \<Rightarrow> resetPasswordToken option" where
  "firstByCreatedAtDesc n ts =
     (case latestRows ts of
        [] \<Rightarrow> None
      | r # rs \<Rightarrow> Some ((r # rs) ! (n mod length (r # rs))))"

text \<open>\<open>prisma.resetPasswordToken.findFirst({ where: { userId }, orderBy: { createdAt: 'desc' } })\<close>\<close>

definition prisma_resetPasswordToken_findFirst ::
  "database \<Rightarrow> string \<Rightarrow> world \<Rightarrow> resetPasswordToken option \<times> world" where
  "prisma_resetPasswordToken_findFirst d uid w =
     (firstByCreatedAtDesc (pick d) (filter (\<lambda>t. t_userId t = uid) (tokens w)),
      logged (Token_findFirst uid) w)"

text \<open>\<open>prisma.resetPasswordToken.create({ data: { userId, active, expiresIn } })\<close>\<close>

definition prisma_resetPasswordToken_create ::
  "database \<Rightarrow> string \<Rightarrow> bool \<Rightarrow> int \<Rightarrow> world \<Rightarrow> (error + resetPasswordToken) \<times> world" where
  "prisma_resetPasswordToken_create d uid act exp w =
     (if gen_id d \<in> set (map t_id (tokens w))
      then (Inl (PrismaClientKnownRequestError ''P2002''), logged (Token_create uid) w)
      else
        (let row = \<lparr>t_id = gen_id d, t_userId = uid, t_active = act, t_expiresIn = exp,
                    t_createdAt = gen_createdAt d\<rparr>
         in (Inr row, logged (Token_create uid) (w\<lparr>tokens := tokens w @ [row]\<rparr>))))"

text \<open>\<open>prisma.resetPasswordToken.update({ where: { id }, data: { active } })\<close>\<close>

definition prisma_resetPasswordToken_update ::
  "string \<Rightarrow> bool \<Rightarrow> world \<Rightarrow> (error + resetPasswordToken) \<times> world" where
  "prisma_resetPasswordToken_update i act w =
     (case find (\<lambda>t. t_id t = i) (tokens w) of
        None \<Rightarrow> (Inl (PrismaClientKnownRequestError ''P2025''), logged (Token_update i act) w)
      | Some t \<Rightarrow>
          (Inr (t\<lparr>t_active := act\<rparr>),
           logged (Token_update i act)
             (w\<lparr>tokens := map (\<lambda>r. if t_id r = i then r\<lparr>t_active := act\<rparr> else r) (tokens w)\<rparr>)))"

subsection \<open>Numbers and dates\<close>

text \<open>
  \<open>Number(process.env.RESET_PASSWORD_TOKEN_EXPIRES_IN)\<close> is \<open>NaN\<close> when the variable is unset
  or is not numeric, and a number of minutes otherwise; the model has the whole numbers.
\<close>

datatype js_number = NaN | Whole int

text \<open>
  A \<open>Date\<close> holds a time value of at most 8.64e15 milliseconds on either side of the
  epoch, or it is an invalid date (\<open>None\<close>). The clock always reads a valid date.
\<close>

definition valid_time :: "int \<Rightarrow> bool" where
  "valid_time t = (- 8640000000000000 \<le> t \<and> t \<le> 8640000000000000)"

definition isAfter :: "int \<Rightarrow> int \<Rightarrow> bool" where
  "isAfter date dateToCompare = (date > dateToCompare)"

text \<open>
  \<open>addMinutes\<close> of \<open>date-fns\<close> gives the date \<open>amount\<close> minutes later; it is the invalid date
  when the amount is \<open>NaN\<close> or the sum leaves the range of dates.
\<close>

definition addMinutes :: "int \<Rightarrow> js_number \<Rightarrow> int option" where
  "addMinutes date amount =
     (case amount of
        NaN \<Rightarrow> None
      | Whole n \<Rightarrow>
          if valid_time date \<and> valid_time (date + n * 60000)
          then Some (date + n * 60000)
          else None)"

text \<open>
  \<open>toISOString\<close> throws on the invalid date. The string it gives denotes the same
  millisecond, which is what the database stores.
\<close>

definition toISOString :: "int option \<Rightarrow> error + int" where
  "toISOString date =
     (case date of
        None \<Rightarrow> Inl (RangeError ''Invalid time value'')
      | Some t \<Rightarrow> Inr t)"

section \<open>AuthService\<close>

text \<open>
  Each method takes the state and returns its result, an error or a value, together
  with the state it leaves. The clock readings (\<open>Date.now()\<close>, \<open>new Date()\<close>) are
  arguments, one for each place the method reads the clock.
\<close>

definition authenticate ::
  "(string \<Rightarrow> int option) \<Rightarrow> jwt_config \<Rightarrow> hash_provider \<Rightarrow> authenticateDto \<Rightarrow> world
     \<Rightarrow> (error + authResponse) \<times> world" where
  "authenticate ms cfg hp credentials w =
     (case prisma_user_findUnique (WhereEmail (a_email credentials)) w of
        (None, w1) \<Rightarrow> (Inl (BadRequestException ''Incorrect email/paswword combination''), w1)
      | (Some usr, w1) \<Rightarrow>
          (let passwordMatched = compareHash hp (a_password credentials) (u_password usr) in
           if \<not> passwordMatched
           then (Inl (BadRequestException ''Incorrect email/paswword combination''), w1)
           else
             (case sign ms (jwt_secret cfg)
                     \<lparr>subject = u_id usr, expiresIn = jwt_expiresIn cfg\<rparr> of
                Inl e \<Rightarrow> (Inl e, w1)
              | Inr token \<Rightarrow>
                  (Inr \<lparr>ar_user = plainToClass_UserModel usr, ar_token = token\<rparr>, w1))))"

definition resetPassword ::
  "hash_provider \<Rightarrow> int \<Rightarrow> resetPasswordDto \<Rightarrow> world \<Rightarrow> (error + unit) \<times> world" where
  "resetPassword hp now data w =
     (if rp_password data \<noteq> rp_passwordConfirmation data
      then (Inl (BadRequestException ''Password and password confirmation do not match''), w)
      else
        (case prisma_resetPasswordToken_findUnique (rp_token data) w of
           (None, w1) \<Rightarrow> (Inl (BadRequestException ''Invalid reset password token''), w1)
         | (Some tok, w1) \<Rightarrow>
             (case prisma_user_findUnique (WhereId (t_userId tok)) w1 of
                (None, w2) \<Rightarrow> (Inl (BadRequestException ''Invalid reset password token''), w2)
              | (Some usr, w2) \<Rightarrow>
                  if isAfter now (t_expiresIn tok) \<or> \<not> t_active tok
                  then (Inl (BadRequestException ''Reset password token is expired''), w2)
                  else
                    (let hashedPassword = generateHash hp (rp_password data) in
                     case prisma_user_update (u_id usr) hashedPassword w2 of
                       (Inl e, w3) \<Rightarrow> (Inl e, w3)
                     | (Inr _, w3) \<Rightarrow>
                         (case prisma_resetPasswordToken_update (t_id tok) False w3 of
                            (Inl e, w4) \<Rightarrow> (Inl e, w4)
                          | (Inr _, w4) \<Rightarrow> (Inr (), w4))))))"

text \<open>
  The flag that \<open>generateResetPasswordToken\<close> computes from the row it fetched and its
  first reading of the clock.
\<close>

definition isLastTokenExpired :: "resetPasswordToken option \<Rightarrow> int \<Rightarrow> bool" where
  "isLastTokenExpired lastToken now =
     (case lastToken of
        None \<Rightarrow> True
      | Some t \<Rightarrow> if \<not> t_active t \<or> t_expiresIn t < now then True else False)"

text \<open>
  \<open>ttl\<close> is \<open>Number(process.env.RESET_PASSWORD_TOKEN_EXPIRES_IN)\<close>; \<open>now\<close> is the clock at
  the comparison and \<open>now'\<close> the clock when the new row is built. The argument of
  \<open>create\<close> is evaluated before the call, so an invalid date throws before any row is
  inserted. The method returns \<open>lastToken\<close> as it is when the flag is false, so the result
  is an optional row.
\<close>

definition generateResetPasswordToken ::
  "js_number \<Rightarrow> int \<Rightarrow> int \<Rightarrow> database \<Rightarrow> string \<Rightarrow> world
     \<Rightarrow> (error + resetPasswordToken option) \<times> world" where
  "generateResetPasswordToken ttl now now' d userId w =
     (case prisma_resetPasswordToken_findFirst d userId w of
        (lastToken, w1) \<Rightarrow>
          if isLastTokenExpired lastToken now
          then
            (case toISOString (addMinutes now' ttl) of
               Inl e \<Rightarrow> (Inl e, w1)
             | Inr expires \<Rightarrow>
                 (case prisma_resetPasswordToken_create d userId True expires w1 of
                    (Inl e, w2) \<Rightarrow> (Inl e, w2)
                  | (Inr row, w2) \<Rightarrow> (Inr (Some row), w2)))
          else (Inr lastToken, w1))"

subsection \<open>Registration\<close>

text \<open>
  Modelled from the spec: \<open>UsersService.create\<close> (\<open>../users/users.service\<close>) is not among
  the sources. The spec says that it "enforces password/confirmation match and
  email-uniqueness" and creates the user; the two messages are the ones the end-to-end
  test of sign-up expects. The stored password is the hash of the one given.
\<close>

definition usersService_create ::
  "hash_provider \<Rightarrow> string \<Rightarrow> createUserDto \<Rightarrow> world \<Rightarrow> (error + user) \<times> world" where
  "usersService_create hp newId data w =
     (if c_password data \<noteq> c_passwordConfirmation data
      then (Inl (BadRequestException ''Password and password confirmation do not match''), w)
      else
        (case prisma_user_findUnique (WhereEmail (c_email data)) w of
           (Some _, w1) \<Rightarrow>
             (Inl (BadRequestException
                    (''The provided email ['' @ c_email data @ ''] is already in use'')), w1)
         | (None, w1) \<Rightarrow>
             if newId \<in> set (map u_id (users w1))
             then (Inl (PrismaClientKnownRequestError ''P2002''), logged (User_create newId) w1)
             else
               (let row = \<lparr>u_id = newId, u_email = c_email data, u_name = c_name data,
                           u_password = generateHash hp (c_password data)\<rparr>
                in (Inr row, logged (User_create newId) (w1\<lparr>users := users w1 @ [row]\<rparr>)))))"

definition register ::
  "(string \<Rightarrow> int option) \<Rightarrow> jwt_config \<Rightarrow> hash_provider \<Rightarrow> string \<Rightarrow> createUserDto \<Rightarrow> world
     \<Rightarrow> (error + authResponse) \<times> world" where
  "register ms cfg hp newId data w =
     (case usersService_create hp newId data w of
        (Inl e, w1) \<Rightarrow> (Inl e, w1)
      | (Inr usr, w1) \<Rightarrow>
          (case sign ms (jwt_secret cfg)
                  \<lparr>subject = u_id usr, expiresIn = jwt_expiresIn cfg\<rparr> of
             Inl e \<Rightarrow> (Inl e, w1)
           | Inr token \<Rightarrow>
               (Inr \<lparr>ar_user = plainToClass_UserModel usr, ar_token = token\<rparr>, w1)))"

section \<open>Runs of the application\<close>

text \<open>
  Modelled from the spec: the other modules of the repository (users, debtors, credit
  cards) are not among the sources. In the spec the store of reset tokens is a
  collaborator of this service alone, its rows "accumulate as an append-mostly log, with
  only the active flag mutated", and a token may be left without its user (an "orphaned
  token"). So one step of the application is a call of one of the two methods that write
  the table of tokens, with any arguments, any clock and any collaborators, or any other
  operation, which may change the users at will and leaves the table of tokens as it is:
  \<open>authenticate\<close>, \<open>register\<close>, an update of a user, the deletion of users
  (\<open>usersService.delete\<close>, \<open>prisma.user.deleteMany\<close>). \<open>sendForgotPasswordEmail\<close> changes the
  tables only through \<open>generateResetPasswordToken\<close>.
\<close>

inductive step :: "world \<Rightarrow> world \<Rightarrow> bool" where
  step_generate: "step w (snd (generateResetPasswordToken ttl now now' d userId w))"
| step_reset: "step w (snd (resetPassword hp now data w))"
| step_other: "tokens w' = tokens w \<Longrightarrow> step w w'"

text \<open>
  A token id is consumed in a state when the row with that id is there and its \<open>active\<close>
  flag is false.
\<close>

definition consumed :: "string \<Rightarrow> world \<Rightarrow> bool" where
  "consumed i w =
     (case find (\<lambda>t. t_id t = i) (tokens w) of
        None \<Rightarrow> False
      | Some tok \<Rightarrow> \<not> t_active tok)"

section \<open>A concrete scenario\<close>

text \<open>
  User A has registered with the password \<open>abc12345\<close>. Token T1 was issued at time 0
  with a time to live of 30 minutes. The hash provider of the scenario prefixes a
  password with \<open>#\<close>.
\<close>

definition ex_hash :: hash_provider where
  "ex_hash = \<lparr>generateHash = (\<lambda>p. ''#'' @ p), compareHash = (\<lambda>p h. h = ''#'' @ p)\<rparr>"

definition ex_cfg :: jwt_config where
  "ex_cfg = \<lparr>jwt_secret = Some ''secret'', jwt_expiresIn = ''1d''\<rparr>"

text \<open>A reader of timespans that knows one day and one hour.\<close>

definition ex_ms :: "string \<Rightarrow> int option" where
  "ex_ms s = (if s = ''1d'' then Some 86400000 else if s = ''1h'' then Some 3600000 else None)"

definition ex_user :: user where
  "ex_user = \<lparr>u_id = ''A'', u_email = ''a@ewallet.com'', u_name = ''User A'',
              u_password = ''#abc12345''\<rparr>"

definition ex_token :: resetPasswordToken where
  "ex_token = \<lparr>t_id = ''T1'', t_userId = ''A'', t_active = True, t_expiresIn = 1800000,
               t_createdAt = 0\<rparr>"

definition ex_world :: world where
  "ex_world = \<lparr>users = [ex_user], tokens = [ex_token], queries = []\<rparr>"

text \<open>A state whose only token belongs to a user that is not there.\<close>

definition ex_orphan_world :: world where
  "ex_orphan_world = \<lparr>users = [], tokens = [ex_token], queries = []\<rparr>"

definition ex_reset :: resetPasswordDto where
  "ex_reset = \<lparr>rp_token = ''T1'', rp_password = ''newpass1'',
               rp_passwordConfirmation = ''newpass1''\<rparr>"

definition ex_reset_mismatch :: resetPasswordDto where
  "ex_reset_mismatch = \<lparr>rp_token = ''T1'', rp_password = ''newpass1'',
                        rp_passwordConfirmation = ''newpass2''\<rparr>"

definition ex_reset_unknown :: resetPasswordDto where
  "ex_reset_unknown = \<lparr>rp_token = ''T9'', rp_password = ''newpass1'',
                       rp_passwordConfirmation = ''newpass1''\<rparr>"

definition ex_database :: database where
  "ex_database = \<lparr>pick = 0, gen_id = ''T2'', gen_createdAt = 1800003\<rparr>"

text \<open>The state after T1 has been used to set the password \<open>newpass1\<close>.\<close>

definition ex_after_reset :: world where
  "ex_after_reset =
     \<lparr>users = [ex_user\<lparr>u_password := ''#newpass1''\<rparr>],
      tokens = [ex_token\<lparr>t_active := False\<rparr>],
      queries = [Token_findUnique ''T1'', User_findUnique (WhereId ''A''),
                 User_update ''A'' ''#newpass1'', Token_update ''T1'' False]\<rparr>"

text \<open>
  The token that a request at time 1800001, just after T1 has expired, creates for user A
  in the first state.
\<close>

definition ex_second_token :: resetPasswordToken where
  "ex_second_token = \<lparr>t_id = ''T2'', t_userId = ''A'', t_active = True,
                      t_expiresIn = 3600002, t_createdAt = 1800003\<rparr>"

text \<open>The state after all users have been deleted from it: T1 is left without its user.\<close>

definition ex_after_delete :: world where
  "ex_after_delete =
     \<lparr>users = [],
      tokens = [ex_token\<lparr>t_active := False\<rparr>],
      queries = [Token_findUnique ''T1'', User_findUnique (WhereId ''A''),
                 User_update ''A'' ''#newpass1'', Token_update ''T1'' False,
                 User_deleteMany]\<rparr>"

text \<open>
  A state in which the only token of user A was created at time 5000 and used in the same
  millisecond, and what the database decides in the next two requests for a token: the
  first is still made in that millisecond.
\<close>

definition ex_used_token :: resetPasswordToken where
  "ex_used_token = \<lparr>t_id = ''T0'', t_userId = ''A'', t_active = False, t_expiresIn = 1805000,
                    t_createdAt = 5000\<rparr>"

definition ex_tie_world :: world where
  "ex_tie_world = \<lparr>users = [ex_user], tokens = [ex_used_token], queries = []\<rparr>"

definition ex_tie_database :: database where
  "ex_tie_database = \<lparr>pick = 0, gen_id = ''T2'', gen_createdAt = 5000\<rparr>"

definition ex_next_database :: database where
  "ex_next_database = \<lparr>pick = 0, gen_id = ''T3'', gen_createdAt = 7000\<rparr>"

text \<open>The token that the first of these requests creates.\<close>

definition ex_tie_token :: resetPasswordToken where
  "ex_tie_token = \<lparr>t_id = ''T2'', t_userId = ''A'', t_active = True, t_expiresIn = 1805000,
                   t_createdAt = 5000\<rparr>"

lemmas ex_defs = ex_hash_def ex_user_def ex_token_def ex_world_def ex_reset_def
  ex_database_def

section \<open>Basic facts about the collaborators\<close>

lemma users_logged [simp]: "users (logged q w) = users w"
  by (simp add: logged_def)

lemma tokens_logged [simp]: "tokens (logged q w) = tokens w"
  by (simp add: logged_def)

lemma queries_logged [simp]: "queries (logged q w) = queries w @ [q]"
  by (simp add: logged_def)

lemma user_matches_WhereId [simp]: "user_matches (WhereId i) = (\<lambda>usr. u_id usr = i)"
  by (rule ext) simp

lemma user_matches_WhereEmail [simp]: "user_matches (WhereEmail e) = (\<lambda>usr. u_email usr = e)"
  by (rule ext) simp

lemma find_Some_holds: "find P xs = Some x \<Longrightarrow> P x"
  by (induction xs) (auto split: if_splits)

lemma find_map_preserving:
  assumes "\<And>x. P (f x) = P x"
  shows "find P (map f xs) = map_option f (find P xs)"
  by (induction xs) (simp_all add: assms)

lemma find_snoc:
  "find P (xs @ [y]) = (case find P xs of None \<Rightarrow> (if P y then Some y else None) | Some x \<Rightarrow> Some x)"
  by (induction xs) simp_all

lemma findUnique_token [simp]:
  "fst (prisma_resetPasswordToken_findUnique i w) = find (\<lambda>t. t_id t = i) (tokens w)"
  by (simp add: prisma_resetPasswordToken_findUnique_def)

lemma findUnique_user [simp]:
  "fst (prisma_user_findUnique wh w) = find (user_matches wh) (users w)"
  by (simp add: prisma_user_findUnique_def)

lemma findFirst_token [simp]:
  "fst (prisma_resetPasswordToken_findFirst d uid w) =
     firstByCreatedAtDesc (pick d) (filter (\<lambda>t. t_userId t = uid) (tokens w))"
  by (simp add: prisma_resetPasswordToken_findFirst_def)

lemma addMinutes_Some:
  "addMinutes date amount = Some e \<Longrightarrow> \<exists>n. amount = Whole n \<and> e = date + n * 60000"
  by (cases amount) (simp_all add: addMinutes_def split: if_splits)

lemma sign_Inr_iff:
  "sign ms secretOrPrivateKey opts = Inr token \<longleftrightarrow>
     (\<exists>secret. secretOrPrivateKey = Some secret \<and> secret \<noteq> [] \<and> expiresIn opts \<noteq> [] \<and>
        ms (expiresIn opts) \<noteq> None \<and> token = Jwt secret (subject opts) (expiresIn opts))"
  by (cases secretOrPrivateKey) (auto simp add: sign_def split: option.splits)

subsection \<open>The first row in descending order of creation\<close>

lemma exists_greatest:
  "ts \<noteq> [] \<Longrightarrow> \<exists>t\<in>set ts. \<forall>t'\<in>set ts. t_createdAt t' \<le> t_createdAt (t::resetPasswordToken)"
proof (induction ts)
  case Nil
  then show ?case by simp
next
  case (Cons a ts)
  show ?case
  proof (cases "ts = []")
    case True
    then show ?thesis by simp
  next
    case False
    with Cons.IH obtain m where m: "m \<in> set ts" "\<forall>t'\<in>set ts. t_createdAt t' \<le> t_createdAt m"
      by blast
    show ?thesis
    proof (cases "t_createdAt m \<le> t_createdAt a")
      case True
      with m have "\<forall>t'\<in>set (a # ts). t_createdAt t' \<le> t_createdAt a" by fastforce
      then show ?thesis by auto
    next
      case False
      with m have "\<forall>t'\<in>set (a # ts). t_createdAt t' \<le> t_createdAt m" by fastforce
      with m(1) show ?thesis by auto
    qed
  qed
qed

lemma set_latestRows:
  "set (latestRows ts) = {t \<in> set ts. \<forall>t'\<in>set ts. t_createdAt t' \<le> t_createdAt t}"
  by (simp add: latestRows_def list_all_iff)

lemma latestRows_empty_iff: "latestRows ts = [] \<longleftrightarrow> ts = []"
proof
  assume e: "latestRows ts = []"
  show "ts = []"
  proof (rule ccontr)
    assume "ts \<noteq> []"
    from exists_greatest [OF this] have "set (latestRows ts) \<noteq> {}"
      by (auto simp add: set_latestRows)
    with e show False by simp
  qed
next
  assume "ts = []"
  then show "latestRows ts = []" by (simp add: latestRows_def)
qed

lemma first_None_iff: "firstByCreatedAtDesc n ts = None \<longleftrightarrow> ts = []"
proof -
  have "firstByCreatedAtDesc n ts = None \<longleftrightarrow> latestRows ts = []"
    by (simp add: firstByCreatedAtDesc_def split: list.splits)
  then show ?thesis by (simp only: latestRows_empty_iff)
qed

lemma first_among_latest:
  assumes "firstByCreatedAtDesc n ts = Some t"
  shows "t \<in> set (latestRows ts)"
proof -
  from assms obtain r rs where rows: "latestRows ts = r # rs"
    and t: "t = (r # rs) ! (n mod length (r # rs))"
    by (auto simp add: firstByCreatedAtDesc_def split: list.splits)
  have "n mod length (r # rs) < length (r # rs)" by simp
  then have "(r # rs) ! (n mod length (r # rs)) \<in> set (r # rs)" by (rule nth_mem)
  with rows t show ?thesis by simp
qed

lemma first_member: "firstByCreatedAtDesc n ts = Some t \<Longrightarrow> t \<in> set ts"
  using first_among_latest [of n ts t] by (simp add: set_latestRows)

lemma first_greatest:
  "firstByCreatedAtDesc n ts = Some t \<Longrightarrow> t' \<in> set ts \<Longrightarrow> t_createdAt t' \<le> t_createdAt t"
  using first_among_latest [of n ts t] by (simp add: set_latestRows)

lemma first_sole_latest:
  assumes mem: "tok \<in> set ts"
      and sole: "\<forall>t\<in>set ts. t \<noteq> tok \<longrightarrow> t_createdAt t < t_createdAt tok"
  shows "firstByCreatedAtDesc n ts = Some tok"
proof -
  from mem have "ts \<noteq> []" by auto
  then obtain t where t: "firstByCreatedAtDesc n ts = Some t"
    using first_None_iff [of n ts] by (cases "firstByCreatedAtDesc n ts") auto
  have "t \<in> set ts" using first_member [OF t] .
  moreover have "t_createdAt tok \<le> t_createdAt t" using first_greatest [OF t mem] .
  ultimately have "t = tok" using sole by fastforce
  with t show ?thesis by simp
qed

lemma first_single: "firstByCreatedAtDesc n [t] = Some t"
  by (simp add: firstByCreatedAtDesc_def latestRows_def)

section \<open>The methods, with the database calls evaluated\<close>

text \<open>
  In \<open>resetPassword\<close> the two updates cannot fail: the rows they address have just been
  read. So the method has four outcomes, three errors and one success.
\<close>

lemma resetPassword_unfolded:
  "resetPassword hp now data w =
     (if rp_password data \<noteq> rp_passwordConfirmation data
      then (Inl (BadRequestException ''Password and password confirmation do not match''), w)
      else
        (case find (\<lambda>t. t_id t = rp_token data) (tokens w) of
           None \<Rightarrow> (Inl (BadRequestException ''Invalid reset password token''),
                    logged (Token_findUnique (rp_token data)) w)
         | Some tok \<Rightarrow>
             (case find (\<lambda>usr. u_id usr = t_userId tok) (users w) of
                None \<Rightarrow> (Inl (BadRequestException ''Invalid reset password token''),
                         logged (User_findUnique (WhereId (t_userId tok)))
                           (logged (Token_findUnique (rp_token data)) w))
              | Some usr \<Rightarrow>
                  if t_expiresIn tok < now \<or> \<not> t_active tok
                  then (Inl (BadRequestException ''Reset password token is expired''),
                        logged (User_findUnique (WhereId (t_userId tok)))
                          (logged (Token_findUnique (rp_token data)) w))
                  else
                    (Inr (),
                     \<lparr>users = map (\<lambda>r. if u_id r = t_userId tok
                                        then r\<lparr>u_password := generateHash hp (rp_password data)\<rparr>
                                        else r) (users w),
                      tokens = map (\<lambda>r. if t_id r = rp_token data then r\<lparr>t_active := False\<rparr> else r)
                                 (tokens w),
                      queries = queries w @
                        [Token_findUnique (rp_token data),
                         User_findUnique (WhereId (t_userId tok)),
                         User_update (t_userId tok) (generateHash hp (rp_password data)),
                         Token_update (rp_token data) False]\<rparr>))))"
proof (cases "rp_password data \<noteq> rp_passwordConfirmation data")
  case True
  then show ?thesis by (simp add: resetPassword_def)
next
  case match: False
  show ?thesis
  proof (cases "find (\<lambda>t. t_id t = rp_token data) (tokens w)")
    case None
    with match show ?thesis
      by (simp add: resetPassword_def prisma_resetPasswordToken_findUnique_def)
  next
    case (Some tok)
    then have tid: "t_id tok = rp_token data" by (auto dest: find_Some_holds)
    show ?thesis
    proof (cases "find (\<lambda>usr. u_id usr = t_userId tok) (users w)")
      case None
      with match Some show ?thesis
        by (simp add: resetPassword_def prisma_resetPasswordToken_findUnique_def
            prisma_user_findUnique_def)
    next
      case usr: (Some usr)
      then have uid: "u_id usr = t_userId tok" by (auto dest: find_Some_holds)
      show ?thesis
      proof (cases "t_expiresIn tok < now \<or> \<not> t_active tok")
        case True
        with match Some usr show ?thesis
          by (auto simp add: resetPassword_def prisma_resetPasswordToken_findUnique_def
              prisma_user_findUnique_def isAfter_def)
      next
        case False
        with match Some usr tid uid show ?thesis
          by (cases w) (simp add: resetPassword_def prisma_resetPasswordToken_findUnique_def
              prisma_user_findUnique_def isAfter_def prisma_user_update_def
              prisma_resetPasswordToken_update_def logged_def Let_def)
      qed
    qed
  qed
qed

lemma resetPassword_tables:
  "(\<exists>e. fst (resetPassword hp now data w) = Inl e \<and>
        users (snd (resetPassword hp now data w)) = users w \<and>
        tokens (snd (resetPassword hp now data w)) = tokens w)
   \<or> (\<exists>tok usr. fst (resetPassword hp now data w) = Inr () \<and>
        find (\<lambda>t. t_id t = rp_token data) (tokens w) = Some tok \<and>
        find (\<lambda>usr. u_id usr = t_userId tok) (users w) = Some usr \<and>
        users (snd (resetPassword hp now data w)) =
          map (\<lambda>r. if u_id r = t_userId tok
                    then r\<lparr>u_password := generateHash hp (rp_password data)\<rparr>
                    else r) (users w) \<and>
        tokens (snd (resetPassword hp now data w)) =
          map (\<lambda>r. if t_id r = rp_token data then r\<lparr>t_active := False\<rparr> else r) (tokens w))"
  by (simp add: resetPassword_unfolded split: option.splits)

lemma isLastTokenExpired_iff:
  "isLastTokenExpired lastToken now \<longleftrightarrow>
     (lastToken = None \<or> (\<exists>t. lastToken = Some t \<and> (\<not> t_active t \<or> t_expiresIn t < now)))"
  by (cases lastToken) (simp_all add: isLastTokenExpired_def)

lemma generate_unfolded:
  "generateResetPasswordToken ttl now now' d userId w =
     (if isLastTokenExpired
           (firstByCreatedAtDesc (pick d) (filter (\<lambda>t. t_userId t = userId) (tokens w))) now
      then
        (case addMinutes now' ttl of
           None \<Rightarrow> (Inl (RangeError ''Invalid time value''), logged (Token_findFirst userId) w)
         | Some e \<Rightarrow>
             if gen_id d \<in> t_id ` set (tokens w)
             then (Inl (PrismaClientKnownRequestError ''P2002''),
                   logged (Token_create userId) (logged (Token_findFirst userId) w))
             else
               (Inr (Some \<lparr>t_id = gen_id d, t_userId = userId, t_active = True,
                           t_expiresIn = e, t_createdAt = gen_createdAt d\<rparr>),
                \<lparr>users = users w,
                 tokens = tokens w @
                   [\<lparr>t_id = gen_id d, t_userId = userId, t_active = True,
                     t_expiresIn = e, t_createdAt = gen_createdAt d\<rparr>],
                 queries = queries w @ [Token_findFirst userId, Token_create userId]\<rparr>))
      else (Inr (firstByCreatedAtDesc (pick d) (filter (\<lambda>t. t_userId t = userId) (tokens w))),
            logged (Token_findFirst userId) w))"
  by (cases w)
    (simp add: generateResetPasswordToken_def prisma_resetPasswordToken_findFirst_def
      prisma_resetPasswordToken_create_def toISOString_def logged_def Let_def
      split: option.splits)

lemma generate_tokens:
  "tokens (snd (generateResetPasswordToken ttl now now' d userId w)) = tokens w \<or>
   (\<exists>row. tokens (snd (generateResetPasswordToken ttl now now' d userId w)) = tokens w @ [row])"
  by (simp add: generate_unfolded split: option.splits)

lemma authenticate_unfolded:
  "authenticate ms cfg hp credentials w =
     (case find (\<lambda>usr. u_email usr = a_email credentials) (users w) of
        None \<Rightarrow> (Inl (BadRequestException ''Incorrect email/paswword combination''),
                 logged (User_findUnique (WhereEmail (a_email credentials))) w)
      | Some usr \<Rightarrow>
          if compareHash hp (a_password credentials) (u_password usr)
          then
            (case sign ms (jwt_secret cfg) \<lparr>subject = u_id usr, expiresIn = jwt_expiresIn cfg\<rparr> of
               Inl e \<Rightarrow> (Inl e, logged (User_findUnique (WhereEmail (a_email credentials))) w)
             | Inr token \<Rightarrow>
                 (Inr \<lparr>ar_user = \<lparr>um_id = u_id usr, um_email = u_email usr, um_name = u_name usr\<rparr>,
                       ar_token = token\<rparr>,
                  logged (User_findUnique (WhereEmail (a_email credentials))) w))
          else (Inl (BadRequestException ''Incorrect email/paswword combination''),
                logged (User_findUnique (WhereEmail (a_email credentials))) w))"
  by (simp add: authenticate_def prisma_user_findUnique_def plainToClass_UserModel_def
      Let_def split: option.splits sum.splits)

section \<open>A consumed token stays consumed\<close>

text \<open>
  No step sets the \<open>active\<close> flag of a row to true or removes a row of the table of
  tokens. The operations of the service that do not write that table, and the deletion of
  all users, are steps.
\<close>

lemma consumed_same_tokens:
  "consumed i w \<Longrightarrow> tokens w' = tokens w \<Longrightarrow> consumed i w'"
  by (simp add: consumed_def)

lemma consumed_token_added:
  "consumed i w \<Longrightarrow> tokens w' = tokens w @ [row] \<Longrightarrow> consumed i w'"
  by (auto simp add: consumed_def find_snoc split: option.splits)

lemma consumed_rows_updated:
  assumes "consumed i w"
      and "tokens w' = map (\<lambda>r. if t_id r = j then r\<lparr>t_active := False\<rparr> else r) (tokens w)"
  shows "consumed i w'"
proof -
  let ?g = "\<lambda>r. if t_id r = j then r\<lparr>t_active := False\<rparr> else r"
  from assms(1) obtain tok where
    tok: "find (\<lambda>t. t_id t = i) (tokens w) = Some tok" and off: "\<not> t_active tok"
    by (auto simp add: consumed_def split: option.splits)
  have "find (\<lambda>t. t_id t = i) (tokens w') = Some (?g tok)"
    using tok assms(2) by (simp add: find_map_preserving)
  moreover have "\<not> t_active (?g tok)"
    using off by simp
  ultimately show ?thesis
    by (simp add: consumed_def)
qed

lemma consumed_step:
  assumes "step w w'" and "consumed i w"
  shows "consumed i w'"
  using assms(1)
proof (cases rule: step.cases)
  case (step_generate ttl now now' d userId)
  with generate_tokens [of ttl now now' d userId w] assms(2) show ?thesis
    by (auto intro: consumed_token_added consumed_same_tokens)
next
  case (step_reset hp now data)
  from resetPassword_tables [of hp now data w] show ?thesis
  proof (elim disjE exE conjE)
    fix e
    assume "tokens (snd (resetPassword hp now data w)) = tokens w"
    with step_reset assms(2) show ?thesis by (auto intro: consumed_same_tokens)
  next
    fix tok usr
    assume "tokens (snd (resetPassword hp now data w)) =
          map (\<lambda>r. if t_id r = rp_token data then r\<lparr>t_active := False\<rparr> else r) (tokens w)"
    with step_reset show ?thesis
      using consumed_rows_updated [OF assms(2)] by simp
  qed
next
  case step_other
  with assms(2) show ?thesis by (auto intro: consumed_same_tokens)
qed

lemma consumed_steps:
  assumes "rtranclp step w w'" and "consumed i w"
  shows "consumed i w'"
  using assms by (induction rule: rtranclp_induct) (auto intro: consumed_step)

lemma consumed_after_reset:
  assumes "resetPassword hp now data w = (Inr (), w1)"
  shows "consumed (rp_token data) w1"
proof -
  from resetPassword_tables [of hp now data w] assms obtain tok where
    tok: "find (\<lambda>t. t_id t = rp_token data) (tokens w) = Some tok" and
    ts: "tokens w1 = map (\<lambda>r. if t_id r = rp_token data then r\<lparr>t_active := False\<rparr> else r)
                       (tokens w)"
    by auto
  from tok have tid: "t_id tok = rp_token data" by (auto dest: find_Some_holds)
  have "find (\<lambda>t. t_id t = rp_token data) (tokens w1) = Some (tok\<lparr>t_active := False\<rparr>)"
    using tok ts tid by (simp add: find_map_preserving)
  then show ?thesis by (simp add: consumed_def)
qed

lemma step_authenticate: "step w (snd (authenticate ms cfg hp credentials w))"
  by (rule step_other) (simp add: authenticate_unfolded split: option.splits sum.splits)

lemma step_register: "step w (snd (register ms cfg hp newId cdata w))"
  by (rule step_other)
    (simp add: register_def usersService_create_def prisma_user_findUnique_def Let_def
      split: option.splits sum.splits)

lemma step_deleteMany: "step w (snd (prisma_user_deleteMany w))"
  by (rule step_other) (simp add: prisma_user_deleteMany_def)

section \<open>The claims\<close>

subsection \<open>Issuing a reset token\<close>

text \<open>
  Claim C1, as the code has it. \<open>generateResetPasswordToken\<close> fetches a token of the user
  with the greatest \<open>createdAt\<close> (none when the user has no token). The flag
  \<open>isLastTokenExpired\<close> is true exactly when there is no such token, or it is not active,
  or its \<open>expiresIn\<close> is strictly before the clock. When the flag is false the method
  returns the fetched row as it is and sends no query but the \<open>findFirst\<close>: no row is
  created and none is changed. When the flag is true, the method builds the expiry date,
  the clock plus the configured minutes: if that is not a valid date (the configured
  value is not a number, or the sum is out of the range of dates) it throws a
  \<open>RangeError\<close> and creates nothing; otherwise it inserts a row, which the database
  refuses when the generated id is taken, and returns it. A token that it returns in
  this case is new: its id differs from the id of every row that was there, it is active,
  it belongs to the user, and its \<open>expiresIn\<close> is the clock plus the configured minutes.
\<close>

theorem generateResetPasswordToken_policy:
  assumes last: "lastToken = fst (prisma_resetPasswordToken_findFirst d userId w)"
      and res: "r = generateResetPasswordToken ttl now now' d userId w"
  shows "(case lastToken of
            None \<Rightarrow> \<forall>t\<in>set (tokens w). t_userId t \<noteq> userId
          | Some t \<Rightarrow> t \<in> set (tokens w) \<and> t_userId t = userId \<and>
              (\<forall>t'\<in>set (tokens w). t_userId t' = userId \<longrightarrow> t_createdAt t' \<le> t_createdAt t))
       \<and> (isLastTokenExpired lastToken now \<longleftrightarrow>
            (lastToken = None \<or>
             (\<exists>t. lastToken = Some t \<and> (\<not> t_active t \<or> t_expiresIn t < now))))
       \<and> (\<not> isLastTokenExpired lastToken now \<longrightarrow>
            r = (Inr lastToken, logged (Token_findFirst userId) w) \<and> lastToken \<noteq> None)
       \<and> (isLastTokenExpired lastToken now \<longrightarrow>
            (case addMinutes now' ttl of
               None \<Rightarrow>
                 r = (Inl (RangeError ''Invalid time value''), logged (Token_findFirst userId) w)
             | Some e \<Rightarrow>
                 if gen_id d \<in> t_id ` set (tokens w)
                 then r = (Inl (PrismaClientKnownRequestError ''P2002''),
                           logged (Token_create userId) (logged (Token_findFirst userId) w))
                 else r =
                   (Inr (Some \<lparr>t_id = gen_id d, t_userId = userId, t_active = True,
                               t_expiresIn = e, t_createdAt = gen_createdAt d\<rparr>),
                    \<lparr>users = users w,
                     tokens = tokens w @
                       [\<lparr>t_id = gen_id d, t_userId = userId, t_active = True,
                         t_expiresIn = e, t_createdAt = gen_createdAt d\<rparr>],
                     queries = queries w @ [Token_findFirst userId, Token_create userId]\<rparr>)))
       \<and> (\<forall>tok. isLastTokenExpired lastToken now \<and> fst r = Inr (Some tok) \<longrightarrow>
            (\<forall>t\<in>set (tokens w). t_id t \<noteq> t_id tok) \<and> t_active tok \<and> t_userId tok = userId \<and>
            (\<exists>n. ttl = Whole n \<and> t_expiresIn tok = now' + n * 60000) \<and>
            tokens (snd r) = tokens w @ [tok])"
proof -
  let ?mine = "filter (\<lambda>t. t_userId t = userId) (tokens w)"
  have lt: "lastToken = firstByCreatedAtDesc (pick d) ?mine"
    using last by simp
  have fetched: "case lastToken of
            None \<Rightarrow> \<forall>t\<in>set (tokens w). t_userId t \<noteq> userId
          | Some t \<Rightarrow> t \<in> set (tokens w) \<and> t_userId t = userId \<and>
              (\<forall>t'\<in>set (tokens w). t_userId t' = userId \<longrightarrow> t_createdAt t' \<le> t_createdAt t)"
  proof (cases lastToken)
    case None
    with lt have "firstByCreatedAtDesc (pick d) ?mine = None" by simp
    then have "?mine = []" by (simp only: first_None_iff)
    then have "\<forall>t\<in>set (tokens w). t_userId t \<noteq> userId"
      by (simp add: filter_empty_conv)
    with None show ?thesis by simp
  next
    case (Some t)
    with lt have l: "firstByCreatedAtDesc (pick d) ?mine = Some t" by simp
    from first_member [OF l] have "t \<in> set (tokens w)" "t_userId t = userId" by simp_all
    moreover have "\<forall>t'\<in>set (tokens w). t_userId t' = userId \<longrightarrow> t_createdAt t' \<le> t_createdAt t"
      using first_greatest [OF l] by simp
    ultimately show ?thesis using Some by simp
  qed
  have flag: "isLastTokenExpired lastToken now \<longleftrightarrow>
            (lastToken = None \<or>
             (\<exists>t. lastToken = Some t \<and> (\<not> t_active t \<or> t_expiresIn t < now)))"
    by (rule isLastTokenExpired_iff)
  have reuse: "\<not> isLastTokenExpired lastToken now \<longrightarrow>
            r = (Inr lastToken, logged (Token_findFirst userId) w) \<and> lastToken \<noteq> None"
  proof (intro impI)
    assume ne: "\<not> isLastTokenExpired lastToken now"
    then have "lastToken \<noteq> None" by (simp add: isLastTokenExpired_iff)
    moreover from ne lt res
    have "r = (Inr lastToken, logged (Token_findFirst userId) w)"
      by (simp add: generate_unfolded)
    ultimately show "r = (Inr lastToken, logged (Token_findFirst userId) w) \<and> lastToken \<noteq> None"
      by simp
  qed
  have mint: "isLastTokenExpired lastToken now \<longrightarrow>
            (case addMinutes now' ttl of
               None \<Rightarrow>
                 r = (Inl (RangeError ''Invalid time value''), logged (Token_findFirst userId) w)
             | Some e \<Rightarrow>
                 if gen_id d \<in> t_id ` set (tokens w)
                 then r = (Inl (PrismaClientKnownRequestError ''P2002''),
                           logged (Token_create userId) (logged (Token_findFirst userId) w))
                 else r =
                   (Inr (Some \<lparr>t_id = gen_id d, t_userId = userId, t_active = True,
                               t_expiresIn = e, t_createdAt = gen_createdAt d\<rparr>),
                    \<lparr>users = users w,
                     tokens = tokens w @
                       [\<lparr>t_id = gen_id d, t_userId = userId, t_active = True,
                         t_expiresIn = e, t_createdAt = gen_createdAt d\<rparr>],
                     queries = queries w @ [Token_findFirst userId, Token_create userId]\<rparr>))"
    using lt res by (simp add: generate_unfolded split: option.splits)
  have new: "\<forall>tok. isLastTokenExpired lastToken now \<and> fst r = Inr (Some tok) \<longrightarrow>
            (\<forall>t\<in>set (tokens w). t_id t \<noteq> t_id tok) \<and> t_active tok \<and> t_userId tok = userId \<and>
            (\<exists>n. ttl = Whole n \<and> t_expiresIn tok = now' + n * 60000) \<and>
            tokens (snd r) = tokens w @ [tok]"
  proof (intro allI impI, elim conjE)
    fix tok
    assume e: "isLastTokenExpired lastToken now" and ok: "fst r = Inr (Some tok)"
    show "(\<forall>t\<in>set (tokens w). t_id t \<noteq> t_id tok) \<and> t_active tok \<and> t_userId tok = userId \<and>
            (\<exists>n. ttl = Whole n \<and> t_expiresIn tok = now' + n * 60000) \<and>
            tokens (snd r) = tokens w @ [tok]"
    proof (cases "addMinutes now' ttl")
      case None
      with e lt res have "fst r = Inl (RangeError ''Invalid time value'')"
        by (simp add: generate_unfolded)
      with ok show ?thesis by simp
    next
      case (Some t)
      show ?thesis
      proof (cases "gen_id d \<in> t_id ` set (tokens w)")
        case True
        with e lt res Some have "fst r = Inl (PrismaClientKnownRequestError ''P2002'')"
          by (simp add: generate_unfolded)
        with ok show ?thesis by simp
      next
        case False
        let ?row = "\<lparr>t_id = gen_id d, t_userId = userId, t_active = True,
                     t_expiresIn = t, t_createdAt = gen_createdAt d\<rparr>"
        from False e lt res Some have "fst r = Inr (Some ?row)"
          and ts: "tokens (snd r) = tokens w @ [?row]"
          by (simp_all add: generate_unfolded)
        with ok have tok: "tok = ?row" by simp
        from False have "\<forall>x\<in>set (tokens w). t_id x \<noteq> gen_id d"
          by (auto simp add: image_iff)
        moreover from addMinutes_Some [OF Some]
        have "\<exists>n. ttl = Whole n \<and> t = now' + n * 60000" .
        ultimately show ?thesis using tok ts by simp
      qed
    qed
  qed
  show ?thesis
    by (rule conjI [OF fetched conjI [OF flag conjI [OF reuse conjI [OF mint new]]]])
qed

theorem generateResetPasswordToken_policy_witness:
  "isLastTokenExpired (fst (prisma_resetPasswordToken_findFirst ex_database ''A'' ex_world)) 1800001
   \<and> addMinutes 1800002 (Whole 30) = Some 3600002
   \<and> generateResetPasswordToken (Whole 30) 1800001 1800002 ex_database ''A'' ex_world =
       (Inr (Some ex_second_token),
        \<lparr>users = [ex_user], tokens = [ex_token, ex_second_token],
         queries = [Token_findFirst ''A'', Token_create ''A'']\<rparr>)
   \<and> t_id ex_second_token \<noteq> t_id ex_token
   \<and> \<not> isLastTokenExpired (fst (prisma_resetPasswordToken_findFirst ex_database ''A'' ex_world)) 300000
   \<and> generateResetPasswordToken (Whole 30) 300000 300001 ex_database ''A'' ex_world =
       (Inr (Some ex_token), logged (Token_findFirst ''A'') ex_world)"
proof -
  let ?last = "fst (prisma_resetPasswordToken_findFirst ex_database ''A'' ex_world)"
  have last: "?last = Some ex_token"
    by (simp add: first_single ex_defs)
  have e1: "isLastTokenExpired ?last 1800001"
    unfolding last by (simp add: isLastTokenExpired_def ex_token_def)
  have e2: "\<not> isLastTokenExpired ?last 300000"
    unfolding last by (simp add: isLastTokenExpired_def ex_token_def)
  have a: "addMinutes 1800002 (Whole 30) = Some 3600002"
    by (simp add: addMinutes_def valid_time_def)
  have f: "gen_id ex_database \<notin> t_id ` set (tokens ex_world)"
    by (simp add: ex_defs)
  note late = generateResetPasswordToken_policy [OF refl refl,
      where userId = "''A''" and w = ex_world and now = 1800001 and now' = 1800002
        and d = ex_database and ttl = "Whole 30"]
  note early = generateResetPasswordToken_policy [OF refl refl,
      where userId = "''A''" and w = ex_world and now = 300000 and now' = 300001
        and d = ex_database and ttl = "Whole 30"]
  from late [THEN conjunct2, THEN conjunct2, THEN conjunct2, THEN conjunct1, THEN mp, OF e1]
  have "generateResetPasswordToken (Whole 30) 1800001 1800002 ex_database ''A'' ex_world =
       (Inr (Some \<lparr>t_id = gen_id ex_database, t_userId = ''A'', t_active = True,
                   t_expiresIn = 3600002, t_createdAt = gen_createdAt ex_database\<rparr>),
        \<lparr>users = users ex_world,
         tokens = tokens ex_world @
           [\<lparr>t_id = gen_id ex_database, t_userId = ''A'', t_active = True,
             t_expiresIn = 3600002, t_createdAt = gen_createdAt ex_database\<rparr>],
         queries = queries ex_world @ [Token_findFirst ''A'', Token_create ''A'']\<rparr>)"
    using f by (simp add: a)
  then have mint: "generateResetPasswordToken (Whole 30) 1800001 1800002 ex_database ''A'' ex_world =
       (Inr (Some ex_second_token),
        \<lparr>users = [ex_user], tokens = [ex_token, ex_second_token],
         queries = [Token_findFirst ''A'', Token_create ''A'']\<rparr>)"
    by (simp add: ex_world_def ex_database_def ex_second_token_def)
  from early [THEN conjunct2, THEN conjunct2, THEN conjunct1, THEN mp, OF e2]
  have reuse: "generateResetPasswordToken (Whole 30) 300000 300001 ex_database ''A'' ex_world =
       (Inr (Some ex_token), logged (Token_findFirst ''A'') ex_world)"
    unfolding last by simp
  have "t_id ex_second_token \<noteq> t_id ex_token"
    by (simp add: ex_token_def ex_second_token_def)
  with e1 e2 a mint reuse show ?thesis by simp
qed

text \<open>
  Claim C1 as it is written, that a true flag always leads to a new token, does not hold:
  when the variable \<open>RESET_PASSWORD_TOKEN_EXPIRES_IN\<close> is unset the date is invalid, and
  the method throws and leaves the table as it was.
\<close>

theorem generateResetPasswordToken_unset_ttl_counterexample:
  "isLastTokenExpired (fst (prisma_resetPasswordToken_findFirst ex_database ''A'' ex_world)) 1800001
   \<and> generateResetPasswordToken NaN 1800001 1800002 ex_database ''A'' ex_world =
       (Inl (RangeError ''Invalid time value''), logged (Token_findFirst ''A'') ex_world)
   \<and> tokens (snd (generateResetPasswordToken NaN 1800001 1800002 ex_database ''A'' ex_world)) =
       tokens ex_world"
  by (simp add: generate_unfolded isLastTokenExpired_def addMinutes_def firstByCreatedAtDesc_def
      latestRows_def ex_defs)

text \<open>
  Claim C2, as the code has it. Two calls in succession for the same user: when the first
  call returns a token, that token's expiry has not passed at the second call, and every
  other token of the user has a strictly earlier \<open>createdAt\<close>, then the second call
  returns the same token, whatever the database picks among equal rows, and only sends
  the \<open>findFirst\<close>.
\<close>

theorem generateResetPasswordToken_idempotent:
  assumes first: "generateResetPasswordToken ttl now now' d userId w = (Inr (Some tok), w1)"
      and sole: "\<forall>t\<in>set (tokens w1). t_userId t = userId \<and> t \<noteq> tok \<longrightarrow>
                   t_createdAt t < t_createdAt tok"
      and valid: "\<not> t_expiresIn tok < later"
  shows "t_active tok \<and>
         generateResetPasswordToken ttl2 later later' d2 userId w1 =
           (Inr (Some tok), logged (Token_findFirst userId) w1)"
proof -
  let ?mine = "filter (\<lambda>t. t_userId t = userId) (tokens w)"
  let ?mine1 = "filter (\<lambda>t. t_userId t = userId) (tokens w1)"
  have mem: "tok \<in> set ?mine1 \<and> t_active tok"
  proof (cases "isLastTokenExpired (firstByCreatedAtDesc (pick d) ?mine) now")
    case False
    with first have l: "firstByCreatedAtDesc (pick d) ?mine = Some tok"
      and w1: "w1 = logged (Token_findFirst userId) w"
      by (simp_all add: generate_unfolded)
    from False l have "t_active tok"
      by (simp add: isLastTokenExpired_def split: if_splits)
    moreover from first_member [OF l] w1 have "tok \<in> set ?mine1" by simp
    ultimately show ?thesis by simp
  next
    case True
    with first obtain e where e: "addMinutes now' ttl = Some e"
      by (cases "addMinutes now' ttl") (simp_all add: generate_unfolded)
    from True first e have fresh: "gen_id d \<notin> t_id ` set (tokens w)"
      by (cases "gen_id d \<in> t_id ` set (tokens w)") (simp_all add: generate_unfolded)
    from True first e fresh
    have tok: "tok = \<lparr>t_id = gen_id d, t_userId = userId, t_active = True,
                       t_expiresIn = e, t_createdAt = gen_createdAt d\<rparr>"
      and w1: "tokens w1 = tokens w @ [tok]"
      by (auto simp add: generate_unfolded)
    from tok w1 show ?thesis by simp
  qed
  have "\<forall>t\<in>set ?mine1. t \<noteq> tok \<longrightarrow> t_createdAt t < t_createdAt tok"
    using sole by simp
  with mem have "firstByCreatedAtDesc (pick d2) ?mine1 = Some tok"
    by (intro first_sole_latest) simp_all
  with mem valid show ?thesis
    by (simp add: generate_unfolded isLastTokenExpired_def)
qed

theorem generateResetPasswordToken_idempotent_witness:
  "generateResetPasswordToken (Whole 30) 1800001 1800002 ex_database ''A'' ex_world =
     (Inr (Some ex_second_token),
      \<lparr>users = [ex_user], tokens = [ex_token, ex_second_token],
       queries = [Token_findFirst ''A'', Token_create ''A'']\<rparr>)
   \<and> t_createdAt ex_token < t_createdAt ex_second_token
   \<and> \<not> t_expiresIn ex_second_token < 2100000
   \<and> generateResetPasswordToken (Whole 30) 2100000 2100001
         \<lparr>pick = 1, gen_id = ''T3'', gen_createdAt = 2100002\<rparr> ''A''
         \<lparr>users = [ex_user], tokens = [ex_token, ex_second_token],
          queries = [Token_findFirst ''A'', Token_create ''A'']\<rparr> =
       (Inr (Some ex_second_token),
        \<lparr>users = [ex_user], tokens = [ex_token, ex_second_token],
         queries = [Token_findFirst ''A'', Token_create ''A'', Token_findFirst ''A'']\<rparr>)"
proof -
  let ?w1 = "\<lparr>users = [ex_user], tokens = [ex_token, ex_second_token],
              queries = [Token_findFirst ''A'', Token_create ''A'']\<rparr>"
  have h1: "generateResetPasswordToken (Whole 30) 1800001 1800002 ex_database ''A'' ex_world =
     (Inr (Some ex_second_token), ?w1)"
    by (simp add: generate_unfolded isLastTokenExpired_def addMinutes_def valid_time_def
        first_single ex_defs ex_second_token_def)
  have c: "t_createdAt ex_token < t_createdAt ex_second_token"
    by (simp add: ex_token_def ex_second_token_def)
  then have h2: "\<forall>t\<in>set (tokens ?w1). t_userId t = ''A'' \<and> t \<noteq> ex_second_token \<longrightarrow>
                   t_createdAt t < t_createdAt ex_second_token"
    by simp
  have h3: "\<not> t_expiresIn ex_second_token < 2100000"
    by (simp add: ex_second_token_def)
  from generateResetPasswordToken_idempotent [OF h1 h2 h3,
      of "Whole 30" 2100001 "\<lparr>pick = 1, gen_id = ''T3'', gen_createdAt = 2100002\<rparr>"]
  have "generateResetPasswordToken (Whole 30) 2100000 2100001
         \<lparr>pick = 1, gen_id = ''T3'', gen_createdAt = 2100002\<rparr> ''A'' ?w1 =
       (Inr (Some ex_second_token), logged (Token_findFirst ''A'') ?w1)"
    by (rule conjunct2)
  with h1 c h3 show ?thesis by (simp add: logged_def)
qed

text \<open>
  Claim C2 as it is written does not hold: the query orders the tokens by \<open>createdAt\<close>
  alone. When the token that the first call creates has the \<open>createdAt\<close> of a used token
  of the user, the second call may fetch the used one and create a third token, although
  the second is active and has not expired.
\<close>

theorem generateResetPasswordToken_tie_counterexample:
  "fst (generateResetPasswordToken (Whole 30) 5000 5000 ex_tie_database ''A'' ex_tie_world) =
     Inr (Some ex_tie_token)
   \<and> t_active ex_tie_token \<and> \<not> t_expiresIn ex_tie_token < 7000
   \<and> fst (generateResetPasswordToken (Whole 30) 7000 7000 ex_next_database ''A''
           (snd (generateResetPasswordToken (Whole 30) 5000 5000 ex_tie_database ''A'' ex_tie_world))) =
       Inr (Some \<lparr>t_id = ''T3'', t_userId = ''A'', t_active = True, t_expiresIn = 1807000,
                  t_createdAt = 7000\<rparr>)
   \<and> ''T3'' \<noteq> t_id ex_tie_token"
proof -
  have one: "generateResetPasswordToken (Whole 30) 5000 5000 ex_tie_database ''A'' ex_tie_world =
     (Inr (Some ex_tie_token),
      \<lparr>users = [ex_user], tokens = [ex_used_token, ex_tie_token],
       queries = [Token_findFirst ''A'', Token_create ''A'']\<rparr>)"
    by (simp add: generate_unfolded isLastTokenExpired_def addMinutes_def valid_time_def
        first_single ex_tie_world_def ex_tie_database_def ex_used_token_def ex_tie_token_def)
  have pick: "firstByCreatedAtDesc 0 [ex_used_token, ex_tie_token] = Some ex_used_token"
    by (simp add: firstByCreatedAtDesc_def latestRows_def ex_used_token_def ex_tie_token_def)
  have two: "fst (generateResetPasswordToken (Whole 30) 7000 7000 ex_next_database ''A''
           \<lparr>users = [ex_user], tokens = [ex_used_token, ex_tie_token],
            queries = [Token_findFirst ''A'', Token_create ''A'']\<rparr>) =
       Inr (Some \<lparr>t_id = ''T3'', t_userId = ''A'', t_active = True, t_expiresIn = 1807000,
                  t_createdAt = 7000\<rparr>)"
    using pick
    by (simp add: generate_unfolded isLastTokenExpired_def addMinutes_def valid_time_def
        ex_next_database_def)
       (simp add: ex_used_token_def ex_tie_token_def)
  have "t_active ex_tie_token" "\<not> t_expiresIn ex_tie_token < 7000" "''T3'' \<noteq> t_id ex_tie_token"
    by (simp_all add: ex_tie_token_def)
  with one two show ?thesis by simp
qed

subsection \<open>Resetting the password\<close>

text \<open>
  Claim C3, as the code has it. After \<open>resetPassword\<close> has succeeded with a token, and
  after any further steps of the application, the token's row is still there and
  inactive, and every call of \<open>resetPassword\<close> that presents the same token fails and
  changes neither table. The error is that of the first check of the method that fails:
  \<open>Password and password confirmation do not match\<close> when the password differs from its
  confirmation, \<open>Invalid reset password token\<close> when the user of the token is no longer
  there, and \<open>Reset password token is expired\<close> otherwise.
\<close>

theorem consumed_token_rejected:
  assumes "resetPassword hp now data w = (Inr (), w1)"
      and "rtranclp step w1 w2"
      and "rp_token data' = rp_token data"
  shows "\<exists>tok. fst (prisma_resetPasswordToken_findUnique (rp_token data') w2) = Some tok
           \<and> \<not> t_active tok
           \<and> fst (resetPassword hp' now' data' w2) =
               Inl (BadRequestException
                     (if rp_password data' \<noteq> rp_passwordConfirmation data'
                      then ''Password and password confirmation do not match''
                      else if fst (prisma_user_findUnique (WhereId (t_userId tok)) w2) = None
                      then ''Invalid reset password token''
                      else ''Reset password token is expired''))
           \<and> users (snd (resetPassword hp' now' data' w2)) = users w2
           \<and> tokens (snd (resetPassword hp' now' data' w2)) = tokens w2"
proof -
  have "consumed (rp_token data') w2"
    using consumed_steps [OF assms(2) consumed_after_reset [OF assms(1)]] assms(3) by simp
  then obtain tok where tok: "find (\<lambda>t. t_id t = rp_token data') (tokens w2) = Some tok"
    and off: "\<not> t_active tok"
    by (auto simp add: consumed_def split: option.splits)
  have "fst (resetPassword hp' now' data' w2) =
               Inl (BadRequestException
                     (if rp_password data' \<noteq> rp_passwordConfirmation data'
                      then ''Password and password confirmation do not match''
                      else if fst (prisma_user_findUnique (WhereId (t_userId tok)) w2) = None
                      then ''Invalid reset password token''
                      else ''Reset password token is expired''))"
    using tok off by (simp add: resetPassword_unfolded split: option.splits)
  moreover have "users (snd (resetPassword hp' now' data' w2)) = users w2"
    using tok off by (simp add: resetPassword_unfolded split: option.splits)
  moreover have "tokens (snd (resetPassword hp' now' data' w2)) = tokens w2"
    using tok off by (simp add: resetPassword_unfolded split: option.splits)
  ultimately show ?thesis using tok off by simp
qed

theorem consumed_token_rejected_witness:
  "resetPassword ex_hash 600000 ex_reset ex_world = (Inr (), ex_after_reset)
   \<and> rtranclp step ex_after_reset
        (snd (generateResetPasswordToken (Whole 30) 660000 660000 ex_database ''A'' ex_after_reset))
   \<and> fst (resetPassword ex_hash 720000 ex_reset
        (snd (generateResetPasswordToken (Whole 30) 660000 660000 ex_database ''A'' ex_after_reset))) =
       Inl (BadRequestException ''Reset password token is expired'')
   \<and> rtranclp step ex_after_reset ex_after_delete
   \<and> fst (resetPassword ex_hash 720000 ex_reset ex_after_delete) =
       Inl (BadRequestException ''Invalid reset password token'')
   \<and> users (snd (resetPassword ex_hash 720000 ex_reset ex_after_delete)) = users ex_after_delete"
proof -
  let ?w2 = "snd (generateResetPasswordToken (Whole 30) 660000 660000 ex_database ''A'' ex_after_reset)"
  have h1: "resetPassword ex_hash 600000 ex_reset ex_world = (Inr (), ex_after_reset)"
    by (simp add: resetPassword_unfolded ex_defs ex_after_reset_def)
  have h2: "rtranclp step ex_after_reset ?w2"
    by (rule r_into_rtranclp) (rule step_generate)
  have "snd (prisma_user_deleteMany ex_after_reset) = ex_after_delete"
    by (simp add: prisma_user_deleteMany_def logged_def ex_after_reset_def ex_after_delete_def)
  with step_deleteMany [of ex_after_reset] have "step ex_after_reset ex_after_delete" by simp
  then have h3: "rtranclp step ex_after_reset ex_after_delete" by (rule r_into_rtranclp)
  have tok2: "fst (prisma_resetPasswordToken_findUnique (rp_token ex_reset) ?w2) =
      Some (ex_token\<lparr>t_active := False\<rparr>)"
    by (simp add: generate_unfolded ex_defs ex_after_reset_def split: option.splits)
  have usr2: "fst (prisma_user_findUnique (WhereId ''A'') ?w2) \<noteq> None"
    by (simp add: generate_unfolded ex_defs ex_after_reset_def split: option.splits)
  have tok3: "fst (prisma_resetPasswordToken_findUnique (rp_token ex_reset) ex_after_delete) =
      Some (ex_token\<lparr>t_active := False\<rparr>)"
    by (simp add: ex_defs ex_after_delete_def)
  have usr3: "fst (prisma_user_findUnique (WhereId ''A'') ex_after_delete) = None"
    by (simp add: ex_after_delete_def)
  have m: "rp_password ex_reset = rp_passwordConfirmation ex_reset"
    by (simp add: ex_reset_def)
  from consumed_token_rejected [OF h1 h2 refl, of ex_hash 720000] tok2 usr2 m
  have a: "fst (resetPassword ex_hash 720000 ex_reset ?w2) =
       Inl (BadRequestException ''Reset password token is expired'')"
    by (auto simp add: ex_token_def)
  from consumed_token_rejected [OF h1 h3 refl, of ex_hash 720000] tok3 usr3 m
  have b: "fst (resetPassword ex_hash 720000 ex_reset ex_after_delete) =
       Inl (BadRequestException ''Invalid reset password token'')
     \<and> users (snd (resetPassword ex_hash 720000 ex_reset ex_after_delete)) = users ex_after_delete"
    by (auto simp add: ex_token_def)
  from h1 h2 h3 a b show ?thesis by simp
qed

text \<open>
  Claim C3 as it is written, that every later call with the same token fails with the
  expiry error, does not hold: the method looks for the user of the token before it
  looks at the \<open>active\<close> flag. In the scenario, after T1 has been used and the users have
  been deleted, a call with T1 and matching passwords fails with
  \<open>Invalid reset password token\<close>.
\<close>

theorem consumed_token_user_deleted_counterexample:
  "resetPassword ex_hash 600000 ex_reset ex_world = (Inr (), ex_after_reset)
   \<and> snd (prisma_user_deleteMany ex_after_reset) = ex_after_delete
   \<and> rp_password ex_reset = rp_passwordConfirmation ex_reset
   \<and> fst (resetPassword ex_hash 720000 ex_reset ex_after_delete) =
       Inl (BadRequestException ''Invalid reset password token'')
   \<and> fst (resetPassword ex_hash 720000 ex_reset ex_after_delete) \<noteq>
       Inl (BadRequestException ''Reset password token is expired'')"
  by (simp add: resetPassword_unfolded prisma_user_deleteMany_def logged_def ex_defs
      ex_after_reset_def ex_after_delete_def)

text \<open>
  Claim C4. On the success path (password equal to the confirmation, token found, its
  user found, token active, clock not after the expiry) \<open>resetPassword\<close> stores the hash
  of the new password in the user's row and sets the token's \<open>active\<close> to false. The
  queries it sends are, in this order: the two reads, the update of the user with the
  hash, the update of the token.
\<close>

theorem resetPassword_success_order:
  assumes "rp_password data = rp_passwordConfirmation data"
      and "fst (prisma_resetPasswordToken_findUnique (rp_token data) w) = Some tok"
      and "fst (prisma_user_findUnique (WhereId (t_userId tok)) w) = Some usr"
      and "t_active tok"
      and "\<not> isAfter now (t_expiresIn tok)"
  shows "resetPassword hp now data w =
           (Inr (),
            \<lparr>users = map (\<lambda>r. if u_id r = u_id usr
                               then r\<lparr>u_password := generateHash hp (rp_password data)\<rparr>
                               else r) (users w),
             tokens = map (\<lambda>r. if t_id r = t_id tok then r\<lparr>t_active := False\<rparr> else r)
                        (tokens w),
             queries = queries w @
               [Token_findUnique (rp_token data),
                User_findUnique (WhereId (t_userId tok)),
                User_update (u_id usr) (generateHash hp (rp_password data)),
                Token_update (t_id tok) False]\<rparr>)"
proof -
  from assms(2) have tid: "t_id tok = rp_token data" by (auto dest: find_Some_holds)
  from assms(3) have uid: "u_id usr = t_userId tok" by (auto dest: find_Some_holds)
  from assms tid uid show ?thesis
    by (simp add: resetPassword_unfolded isAfter_def)
qed

theorem resetPassword_success_order_witness:
  "rp_password ex_reset = rp_passwordConfirmation ex_reset
   \<and> fst (prisma_resetPasswordToken_findUnique (rp_token ex_reset) ex_world) = Some ex_token
   \<and> fst (prisma_user_findUnique (WhereId (t_userId ex_token)) ex_world) = Some ex_user
   \<and> t_active ex_token \<and> \<not> isAfter 600000 (t_expiresIn ex_token)
   \<and> resetPassword ex_hash 600000 ex_reset ex_world = (Inr (), ex_after_reset)"
proof -
  have h1: "rp_password ex_reset = rp_passwordConfirmation ex_reset"
    by (simp add: ex_defs)
  have h2: "fst (prisma_resetPasswordToken_findUnique (rp_token ex_reset) ex_world) = Some ex_token"
    by (simp add: ex_defs)
  have h3: "fst (prisma_user_findUnique (WhereId (t_userId ex_token)) ex_world) = Some ex_user"
    by (simp add: ex_defs)
  have h4: "t_active ex_token" by (simp add: ex_defs)
  have h5: "\<not> isAfter 600000 (t_expiresIn ex_token)" by (simp add: isAfter_def ex_defs)
  from resetPassword_success_order [OF h1 h2 h3 h4 h5, of ex_hash] h1 h2 h3 h4 h5
  show ?thesis by (simp add: ex_defs ex_after_reset_def)
qed

text \<open>
  Claim C6. When the password differs from its confirmation, \<open>resetPassword\<close> fails with
  \<open>Password and password confirmation do not match\<close> and the state is the one it was
  given: no row has changed and no query has been sent to either table.
\<close>

theorem resetPassword_mismatch_before_lookup:
  assumes "rp_password data \<noteq> rp_passwordConfirmation data"
  shows "resetPassword hp now data w =
           (Inl (BadRequestException ''Password and password confirmation do not match''), w)"
  using assms by (simp add: resetPassword_def)

theorem resetPassword_mismatch_before_lookup_witness:
  "rp_password ex_reset_mismatch \<noteq> rp_passwordConfirmation ex_reset_mismatch \<and>
   resetPassword ex_hash 600000 ex_reset_mismatch ex_world =
     (Inl (BadRequestException ''Password and password confirmation do not match''), ex_world)"
  using resetPassword_mismatch_before_lookup [of ex_reset_mismatch ex_hash 600000 ex_world]
  by (simp add: ex_reset_mismatch_def)

text \<open>
  Claim C7. A request whose token id is not in the table and a request whose token is
  found but whose user is not get the same answer. Past the check of the confirmation
  both fail with \<open>Invalid reset password token\<close>; and whenever the two requests agree
  on whether the password equals the confirmation, their results are equal.
\<close>

theorem resetPassword_invalid_token_same_message:
  assumes unknown: "fst (prisma_resetPasswordToken_findUnique (rp_token d1) w1) = None"
      and found: "fst (prisma_resetPasswordToken_findUnique (rp_token d2) w2) = Some tok"
      and orphan: "fst (prisma_user_findUnique (WhereId (t_userId tok)) w2) = None"
  shows "(rp_password d1 = rp_passwordConfirmation d1 \<longrightarrow>
            fst (resetPassword hp1 now1 d1 w1) =
              Inl (BadRequestException ''Invalid reset password token''))
       \<and> (rp_password d2 = rp_passwordConfirmation d2 \<longrightarrow>
            fst (resetPassword hp2 now2 d2 w2) =
              Inl (BadRequestException ''Invalid reset password token''))
       \<and> ((rp_password d1 = rp_passwordConfirmation d1) =
            (rp_password d2 = rp_passwordConfirmation d2) \<longrightarrow>
            fst (resetPassword hp1 now1 d1 w1) = fst (resetPassword hp2 now2 d2 w2))"
  using assms by (simp add: resetPassword_unfolded)

theorem resetPassword_invalid_token_same_message_witness:
  "fst (prisma_resetPasswordToken_findUnique (rp_token ex_reset_unknown) ex_world) = None
   \<and> fst (prisma_resetPasswordToken_findUnique (rp_token ex_reset) ex_orphan_world) = Some ex_token
   \<and> fst (prisma_user_findUnique (WhereId (t_userId ex_token)) ex_orphan_world) = None
   \<and> fst (resetPassword ex_hash 600000 ex_reset_unknown ex_world) =
       Inl (BadRequestException ''Invalid reset password token'')
   \<and> fst (resetPassword ex_hash 600000 ex_reset ex_orphan_world) =
       Inl (BadRequestException ''Invalid reset password token'')"
proof -
  have h1: "fst (prisma_resetPasswordToken_findUnique (rp_token ex_reset_unknown) ex_world) = None"
    by (simp add: ex_defs ex_reset_unknown_def)
  have h2: "fst (prisma_resetPasswordToken_findUnique (rp_token ex_reset) ex_orphan_world) = Some ex_token"
    by (simp add: ex_defs ex_orphan_world_def)
  have h3: "fst (prisma_user_findUnique (WhereId (t_userId ex_token)) ex_orphan_world) = None"
    by (simp add: ex_defs ex_orphan_world_def)
  have h4: "rp_password ex_reset_unknown = rp_passwordConfirmation ex_reset_unknown"
    "rp_password ex_reset = rp_passwordConfirmation ex_reset"
    by (simp_all add: ex_defs ex_reset_unknown_def)
  from resetPassword_invalid_token_same_message [OF h1 h2 h3, of ex_hash 600000 ex_hash 600000] h1 h2 h3 h4
  show ?thesis by simp
qed

text \<open>
  Claim C9. Whenever \<open>resetPassword\<close> fails, both tables are as they were before the
  call, and the error is one of the three messages of its four checks.
\<close>

theorem resetPassword_failure_atomic:
  assumes "fst (resetPassword hp now data w) = Inl e"
  shows "users (snd (resetPassword hp now data w)) = users w
       \<and> tokens (snd (resetPassword hp now data w)) = tokens w
       \<and> e \<in> {BadRequestException ''Password and password confirmation do not match'',
               BadRequestException ''Invalid reset password token'',
               BadRequestException ''Reset password token is expired''}"
  using assms by (auto simp add: resetPassword_unfolded split: if_splits option.splits)

theorem resetPassword_failure_atomic_witness:
  "fst (resetPassword ex_hash 1800001 ex_reset ex_world) =
     Inl (BadRequestException ''Reset password token is expired'')
   \<and> users (snd (resetPassword ex_hash 1800001 ex_reset ex_world)) = users ex_world
   \<and> tokens (snd (resetPassword ex_hash 1800001 ex_reset ex_world)) = tokens ex_world"
proof -
  have h: "fst (resetPassword ex_hash 1800001 ex_reset ex_world) =
     Inl (BadRequestException ''Reset password token is expired'')"
    by (simp add: resetPassword_unfolded ex_defs)
  from resetPassword_failure_atomic [OF h] h show ?thesis by simp
qed

text \<open>
  Claim C10. Take an active token that is the one fetched for its user and whose user is
  there, and a request with that token and matching passwords. While the clock is not
  after the token's \<open>expiresIn\<close>, and so when the two are equal,
  \<open>generateResetPasswordToken\<close> returns that token and only sends the \<open>findFirst\<close>, and
  \<open>resetPassword\<close> succeeds: it stores the hash of the new password and sets the token's
  \<open>active\<close> to false. As soon as the clock is after \<open>expiresIn\<close>, both methods count the
  token as expired: \<open>generateResetPasswordToken\<close> does not return it but goes on to
  create a token, and \<open>resetPassword\<close> fails with \<open>Reset password token is expired\<close> after
  its two reads.
\<close>

theorem expiry_boundary_agrees:
  assumes latest: "fst (prisma_resetPasswordToken_findFirst d userId w) = Some tok"
      and byid: "fst (prisma_resetPasswordToken_findUnique (rp_token data) w) = Some tok"
      and owner: "fst (prisma_user_findUnique (WhereId (t_userId tok)) w) = Some usr"
      and match: "rp_password data = rp_passwordConfirmation data"
      and active: "t_active tok"
  shows "(now \<le> t_expiresIn tok \<longrightarrow>
            generateResetPasswordToken ttl now now' d userId w =
              (Inr (Some tok), logged (Token_findFirst userId) w)
          \<and> resetPassword hp now data w =
              (Inr (),
               \<lparr>users = map (\<lambda>r. if u_id r = u_id usr
                                  then r\<lparr>u_password := generateHash hp (rp_password data)\<rparr>
                                  else r) (users w),
                tokens = map (\<lambda>r. if t_id r = t_id tok then r\<lparr>t_active := False\<rparr> else r)
                           (tokens w),
                queries = queries w @
                  [Token_findUnique (rp_token data),
                   User_findUnique (WhereId (t_userId tok)),
                   User_update (u_id usr) (generateHash hp (rp_password data)),
                   Token_update (t_id tok) False]\<rparr>))
       \<and> (t_expiresIn tok < now \<longrightarrow>
            fst (generateResetPasswordToken ttl now now' d userId w) \<noteq> Inr (Some tok)
          \<and> generateResetPasswordToken ttl now now' d userId w =
              (case addMinutes now' ttl of
                 None \<Rightarrow>
                   (Inl (RangeError ''Invalid time value''), logged (Token_findFirst userId) w)
               | Some e \<Rightarrow>
                   if gen_id d \<in> t_id ` set (tokens w)
                   then (Inl (PrismaClientKnownRequestError ''P2002''),
                         logged (Token_create userId) (logged (Token_findFirst userId) w))
                   else
                     (Inr (Some \<lparr>t_id = gen_id d, t_userId = userId, t_active = True,
                                 t_expiresIn = e, t_createdAt = gen_createdAt d\<rparr>),
                      \<lparr>users = users w,
                       tokens = tokens w @
                         [\<lparr>t_id = gen_id d, t_userId = userId, t_active = True,
                           t_expiresIn = e, t_createdAt = gen_createdAt d\<rparr>],
                       queries = queries w @ [Token_findFirst userId, Token_create userId]\<rparr>))
          \<and> resetPassword hp now data w =
              (Inl (BadRequestException ''Reset password token is expired''),
               logged (User_findUnique (WhereId (t_userId tok)))
                 (logged (Token_findUnique (rp_token data)) w)))"
proof (intro conjI impI)
  assume le: "now \<le> t_expiresIn tok"
  show "generateResetPasswordToken ttl now now' d userId w =
              (Inr (Some tok), logged (Token_findFirst userId) w)"
    using latest active le by (simp add: generate_unfolded isLastTokenExpired_def)
  from byid have tid: "t_id tok = rp_token data" by (auto dest: find_Some_holds)
  from owner have uid: "u_id usr = t_userId tok" by (auto dest: find_Some_holds)
  show "resetPassword hp now data w =
              (Inr (),
               \<lparr>users = map (\<lambda>r. if u_id r = u_id usr
                                  then r\<lparr>u_password := generateHash hp (rp_password data)\<rparr>
                                  else r) (users w),
                tokens = map (\<lambda>r. if t_id r = t_id tok then r\<lparr>t_active := False\<rparr> else r)
                           (tokens w),
                queries = queries w @
                  [Token_findUnique (rp_token data),
                   User_findUnique (WhereId (t_userId tok)),
                   User_update (u_id usr) (generateHash hp (rp_password data)),
                   Token_update (t_id tok) False]\<rparr>)"
    using byid owner match active le tid uid by (simp add: resetPassword_unfolded)
next
  assume lt: "t_expiresIn tok < now"
  let ?mint = "case addMinutes now' ttl of
                 None \<Rightarrow>
                   (Inl (RangeError ''Invalid time value''), logged (Token_findFirst userId) w)
               | Some e \<Rightarrow>
                   if gen_id d \<in> t_id ` set (tokens w)
                   then (Inl (PrismaClientKnownRequestError ''P2002''),
                         logged (Token_create userId) (logged (Token_findFirst userId) w))
                   else
                     (Inr (Some \<lparr>t_id = gen_id d, t_userId = userId, t_active = True,
                                 t_expiresIn = e, t_createdAt = gen_createdAt d\<rparr>),
                      \<lparr>users = users w,
                       tokens = tokens w @
                         [\<lparr>t_id = gen_id d, t_userId = userId, t_active = True,
                           t_expiresIn = e, t_createdAt = gen_createdAt d\<rparr>],
                       queries = queries w @ [Token_findFirst userId, Token_create userId]\<rparr>)"
  show mint: "generateResetPasswordToken ttl now now' d userId w = ?mint"
    using latest lt by (simp add: generate_unfolded isLastTokenExpired_def)
  have here: "tok \<in> set (tokens w)"
    using latest first_member [of "pick d" "filter (\<lambda>t. t_userId t = userId) (tokens w)" tok]
    by simp
  show "fst (generateResetPasswordToken ttl now now' d userId w) \<noteq> Inr (Some tok)"
  proof (cases "addMinutes now' ttl")
    case None
    with mint show ?thesis by simp
  next
    case (Some e)
    show ?thesis
    proof (cases "gen_id d \<in> t_id ` set (tokens w)")
      case True
      with mint Some show ?thesis by simp
    next
      case False
      with here have "t_id tok \<noteq> gen_id d" by (auto simp add: image_iff)
      then have "tok \<noteq> \<lparr>t_id = gen_id d, t_userId = userId, t_active = True,
                         t_expiresIn = e, t_createdAt = gen_createdAt d\<rparr>"
        by auto
      with mint Some False show ?thesis by simp
    qed
  qed
  show "resetPassword hp now data w =
              (Inl (BadRequestException ''Reset password token is expired''),
               logged (User_findUnique (WhereId (t_userId tok)))
                 (logged (Token_findUnique (rp_token data)) w))"
    using byid owner match lt by (simp add: resetPassword_unfolded)
qed

theorem expiry_boundary_agrees_witness:
  "fst (prisma_resetPasswordToken_findFirst ex_database ''A'' ex_world) = Some ex_token
   \<and> fst (prisma_resetPasswordToken_findUnique (rp_token ex_reset) ex_world) = Some ex_token
   \<and> fst (prisma_user_findUnique (WhereId (t_userId ex_token)) ex_world) = Some ex_user
   \<and> rp_password ex_reset = rp_passwordConfirmation ex_reset
   \<and> t_active ex_token \<and> t_expiresIn ex_token = 1800000
   \<and> generateResetPasswordToken (Whole 30) 1800000 1800000 ex_database ''A'' ex_world =
       (Inr (Some ex_token), logged (Token_findFirst ''A'') ex_world)
   \<and> fst (resetPassword ex_hash 1800000 ex_reset ex_world) = Inr ()
   \<and> users (snd (resetPassword ex_hash 1800000 ex_reset ex_world)) =
       [ex_user\<lparr>u_password := ''#newpass1''\<rparr>]
   \<and> generateResetPasswordToken (Whole 30) 1800001 1800002 ex_database ''A'' ex_world =
       (Inr (Some ex_second_token),
        \<lparr>users = [ex_user], tokens = [ex_token, ex_second_token],
         queries = [Token_findFirst ''A'', Token_create ''A'']\<rparr>)
   \<and> fst (resetPassword ex_hash 1800001 ex_reset ex_world) =
       Inl (BadRequestException ''Reset password token is expired'')"
proof -
  have h1: "fst (prisma_resetPasswordToken_findFirst ex_database ''A'' ex_world) = Some ex_token"
    by (simp add: first_single ex_defs)
  have h2: "fst (prisma_resetPasswordToken_findUnique (rp_token ex_reset) ex_world) = Some ex_token"
    by (simp add: ex_defs)
  have h3: "fst (prisma_user_findUnique (WhereId (t_userId ex_token)) ex_world) = Some ex_user"
    by (simp add: ex_defs)
  have h4: "rp_password ex_reset = rp_passwordConfirmation ex_reset"
    by (simp add: ex_defs)
  have h5: "t_active ex_token" by (simp add: ex_defs)
  have h6: "t_expiresIn ex_token = 1800000" by (simp add: ex_defs)
  have a: "addMinutes 1800002 (Whole 30) = Some 3600002"
    by (simp add: addMinutes_def valid_time_def)
  note at = expiry_boundary_agrees [OF h1 h2 h3 h4 h5,
      where now = 1800000 and now' = 1800000 and ttl = "Whole 30" and hp = ex_hash,
      THEN conjunct1, THEN mp]
  note past = expiry_boundary_agrees [OF h1 h2 h3 h4 h5,
      where now = 1800001 and now' = 1800002 and ttl = "Whole 30" and hp = ex_hash,
      THEN conjunct2, THEN mp]
  have "(1800000::int) \<le> t_expiresIn ex_token" by (simp add: h6)
  from at [OF this]
  have g1: "generateResetPasswordToken (Whole 30) 1800000 1800000 ex_database ''A'' ex_world =
       (Inr (Some ex_token), logged (Token_findFirst ''A'') ex_world)"
    and r1: "fst (resetPassword ex_hash 1800000 ex_reset ex_world) = Inr ()"
    and u1: "users (snd (resetPassword ex_hash 1800000 ex_reset ex_world)) =
       [ex_user\<lparr>u_password := ''#newpass1''\<rparr>]"
    by (simp_all add: ex_defs)
  have "t_expiresIn ex_token < (1800001::int)" by (simp add: h6)
  from past [OF this]
  have g2: "generateResetPasswordToken (Whole 30) 1800001 1800002 ex_database ''A'' ex_world =
       (Inr (Some ex_second_token),
        \<lparr>users = [ex_user], tokens = [ex_token, ex_second_token],
         queries = [Token_findFirst ''A'', Token_create ''A'']\<rparr>)"
    and r2: "fst (resetPassword ex_hash 1800001 ex_reset ex_world) =
       Inl (BadRequestException ''Reset password token is expired'')"
    by (simp_all add: a ex_defs ex_second_token_def)
  from h1 h2 h3 h4 h5 h6 g1 r1 u1 g2 r2 show ?thesis by simp
qed

subsection \<open>Signing in\<close>

text \<open>
  Claim C5. A call of \<open>authenticate\<close> that fails because no user has the email and a call
  that fails because the password does not verify against the stored hash return the
  same error, with the same fixed message.
\<close>

theorem authenticate_failures_indistinguishable:
  assumes nouser: "fst (prisma_user_findUnique (WhereEmail (a_email c1)) w1) = None"
      and user: "fst (prisma_user_findUnique (WhereEmail (a_email c2)) w2) = Some usr"
      and wrong: "\<not> compareHash hp2 (a_password c2) (u_password usr)"
  shows "fst (authenticate ms1 cfg1 hp1 c1 w1) = fst (authenticate ms2 cfg2 hp2 c2 w2)
       \<and> fst (authenticate ms1 cfg1 hp1 c1 w1) =
           Inl (BadRequestException ''Incorrect email/paswword combination'')"
  using assms by (simp add: authenticate_unfolded)

theorem authenticate_failures_indistinguishable_witness:
  "fst (prisma_user_findUnique (WhereEmail ''b@ewallet.com'') ex_world) = None
   \<and> fst (prisma_user_findUnique (WhereEmail ''a@ewallet.com'') ex_world) = Some ex_user
   \<and> \<not> compareHash ex_hash ''wrong'' (u_password ex_user)
   \<and> fst (authenticate ex_ms ex_cfg ex_hash
            \<lparr>a_email = ''b@ewallet.com'', a_password = ''abc12345''\<rparr> ex_world) =
       fst (authenticate ex_ms ex_cfg ex_hash
            \<lparr>a_email = ''a@ewallet.com'', a_password = ''wrong''\<rparr> ex_world)"
proof -
  let ?c1 = "\<lparr>a_email = ''b@ewallet.com'', a_password = ''abc12345''\<rparr>"
  let ?c2 = "\<lparr>a_email = ''a@ewallet.com'', a_password = ''wrong''\<rparr>"
  have h1: "fst (prisma_user_findUnique (WhereEmail (a_email ?c1)) ex_world) = None"
    by (simp add: ex_defs)
  have h2: "fst (prisma_user_findUnique (WhereEmail (a_email ?c2)) ex_world) = Some ex_user"
    by (simp add: ex_defs)
  have h3: "\<not> compareHash ex_hash (a_password ?c2) (u_password ex_user)"
    by (simp add: ex_defs)
  from authenticate_failures_indistinguishable [OF h1 h2 h3, of ex_ms ex_cfg ex_hash ex_ms ex_cfg]
    h1 h2 h3
  show ?thesis by simp
qed

text \<open>
  Claim C8. Whenever \<open>authenticate\<close> succeeds, a user has been found by the email of the
  request, the password has verified against that user's stored hash, and the result
  holds a token signed with the configured secret, whose subject is the user's id and
  whose expiry is the configured one, together with the user without its password: the
  id, the email and the name. It succeeds exactly when such a user is found, the
  password verifies, and \<open>sign\<close> accepts the configured secret and expiry. The only query
  it sends is the \<open>findUnique\<close> by email.
\<close>

theorem authenticate_success:
  "(\<forall>r. fst (authenticate ms cfg hp credentials w) = Inr r \<longrightarrow>
      (\<exists>usr secret.
          fst (prisma_user_findUnique (WhereEmail (a_email credentials)) w) = Some usr
        \<and> u_email usr = a_email credentials
        \<and> compareHash hp (a_password credentials) (u_password usr)
        \<and> jwt_secret cfg = Some secret
        \<and> signed_with (ar_token r) = secret
        \<and> sub_claim (ar_token r) = u_id usr
        \<and> exp_option (ar_token r) = jwt_expiresIn cfg
        \<and> ar_user r = \<lparr>um_id = u_id usr, um_email = u_email usr, um_name = u_name usr\<rparr>))
   \<and> ((\<exists>r. fst (authenticate ms cfg hp credentials w) = Inr r) \<longleftrightarrow>
        (\<exists>usr. fst (prisma_user_findUnique (WhereEmail (a_email credentials)) w) = Some usr
           \<and> compareHash hp (a_password credentials) (u_password usr))
        \<and> (\<exists>secret. jwt_secret cfg = Some secret \<and> secret \<noteq> [])
        \<and> jwt_expiresIn cfg \<noteq> [] \<and> ms (jwt_expiresIn cfg) \<noteq> None)
   \<and> snd (authenticate ms cfg hp credentials w) =
        logged (User_findUnique (WhereEmail (a_email credentials))) w"
proof (intro conjI allI impI)
  fix r
  assume ok: "fst (authenticate ms cfg hp credentials w) = Inr r"
  then obtain usr where usr: "find (\<lambda>usr. u_email usr = a_email credentials) (users w) = Some usr"
    by (cases "find (\<lambda>usr. u_email usr = a_email credentials) (users w)")
      (simp_all add: authenticate_unfolded)
  from usr have mail: "u_email usr = a_email credentials" by (auto dest: find_Some_holds)
  from ok usr have pw: "compareHash hp (a_password credentials) (u_password usr)"
    by (cases "compareHash hp (a_password credentials) (u_password usr)")
      (simp_all add: authenticate_unfolded)
  let ?opts = "\<lparr>subject = u_id usr, expiresIn = jwt_expiresIn cfg\<rparr>"
  from ok usr pw obtain token where token: "sign ms (jwt_secret cfg) ?opts = Inr token"
    and r: "r = \<lparr>ar_user = \<lparr>um_id = u_id usr, um_email = u_email usr, um_name = u_name usr\<rparr>,
                ar_token = token\<rparr>"
    by (cases "sign ms (jwt_secret cfg) ?opts") (simp_all add: authenticate_unfolded)
  from token obtain secret where "jwt_secret cfg = Some secret"
    and "token = Jwt secret (u_id usr) (jwt_expiresIn cfg)"
    by (auto simp add: sign_Inr_iff)
  with usr mail pw r
  show "\<exists>usr secret.
          fst (prisma_user_findUnique (WhereEmail (a_email credentials)) w) = Some usr
        \<and> u_email usr = a_email credentials
        \<and> compareHash hp (a_password credentials) (u_password usr)
        \<and> jwt_secret cfg = Some secret
        \<and> signed_with (ar_token r) = secret
        \<and> sub_claim (ar_token r) = u_id usr
        \<and> exp_option (ar_token r) = jwt_expiresIn cfg
        \<and> ar_user r = \<lparr>um_id = u_id usr, um_email = u_email usr, um_name = u_name usr\<rparr>"
    by simp
next
  show "(\<exists>r. fst (authenticate ms cfg hp credentials w) = Inr r) \<longleftrightarrow>
        (\<exists>usr. fst (prisma_user_findUnique (WhereEmail (a_email credentials)) w) = Some usr
           \<and> compareHash hp (a_password credentials) (u_password usr))
        \<and> (\<exists>secret. jwt_secret cfg = Some secret \<and> secret \<noteq> [])
        \<and> jwt_expiresIn cfg \<noteq> [] \<and> ms (jwt_expiresIn cfg) \<noteq> None"
  proof (cases "find (\<lambda>usr. u_email usr = a_email credentials) (users w)")
    case None
    then show ?thesis by (simp add: authenticate_unfolded)
  next
    case (Some usr)
    show ?thesis
    proof (cases "compareHash hp (a_password credentials) (u_password usr)")
      case False
      with Some show ?thesis by (simp add: authenticate_unfolded)
    next
      case True
      let ?opts = "\<lparr>subject = u_id usr, expiresIn = jwt_expiresIn cfg\<rparr>"
      have "(\<exists>token. sign ms (jwt_secret cfg) ?opts = Inr token) \<longleftrightarrow>
            (\<exists>secret. jwt_secret cfg = Some secret \<and> secret \<noteq> [])
            \<and> jwt_expiresIn cfg \<noteq> [] \<and> ms (jwt_expiresIn cfg) \<noteq> None"
        by (auto simp add: sign_Inr_iff)
      moreover have "(\<exists>r. fst (authenticate ms cfg hp credentials w) = Inr r) \<longleftrightarrow>
            (\<exists>token. sign ms (jwt_secret cfg) ?opts = Inr token)"
        using Some True
        by (cases "sign ms (jwt_secret cfg) ?opts") (simp_all add: authenticate_unfolded)
      ultimately show ?thesis using Some True by simp
    qed
  qed
next
  show "snd (authenticate ms cfg hp credentials w) =
        logged (User_findUnique (WhereEmail (a_email credentials))) w"
    by (simp add: authenticate_unfolded split: option.splits sum.splits)
qed

theorem authenticate_success_witness:
  "fst (authenticate ex_ms ex_cfg ex_hash
          \<lparr>a_email = ''a@ewallet.com'', a_password = ''abc12345''\<rparr> ex_world) =
       Inr \<lparr>ar_user = \<lparr>um_id = ''A'', um_email = ''a@ewallet.com'', um_name = ''User A''\<rparr>,
            ar_token = Jwt ''secret'' ''A'' ''1d''\<rparr>
   \<and> sub_claim (Jwt ''secret'' ''A'' ''1d'') = u_id ex_user
   \<and> fst (prisma_user_findUnique (WhereEmail ''a@ewallet.com'') ex_world) = Some ex_user
   \<and> compareHash ex_hash ''abc12345'' (u_password ex_user)"
proof -
  let ?c = "\<lparr>a_email = ''a@ewallet.com'', a_password = ''abc12345''\<rparr>"
  let ?r = "\<lparr>ar_user = \<lparr>um_id = ''A'', um_email = ''a@ewallet.com'', um_name = ''User A''\<rparr>,
              ar_token = Jwt ''secret'' ''A'' ''1d''\<rparr>"
  have ok: "fst (authenticate ex_ms ex_cfg ex_hash ?c ex_world) = Inr ?r"
    by (simp add: authenticate_unfolded sign_def ex_ms_def ex_cfg_def ex_defs)
  have h1: "fst (prisma_user_findUnique (WhereEmail ''a@ewallet.com'') ex_world) = Some ex_user"
    by (simp add: ex_defs)
  from authenticate_success [of ex_ms ex_cfg ex_hash ?c ex_world, THEN conjunct1, rule_format, OF ok]
  obtain usr where
    u: "fst (prisma_user_findUnique (WhereEmail (a_email ?c)) ex_world) = Some usr"
    and p: "compareHash ex_hash (a_password ?c) (u_password usr)"
    and s: "sub_claim (ar_token ?r) = u_id usr"
    by blast
  from u h1 have "usr = ex_user" by simp
  with p s ok h1 show ?thesis by simp
qed

end
